theory Spec2Isabelle
  imports Main "HOL-Library.Word"
begin

unbundle bit_operations_syntax

section \<open>Data model of the CHIP-8 machine (\<^verbatim>\<open>chip8.hpp\<close>)\<close>

type_synonym u8 = "8 word"
type_synonym u16 = "16 word"

text \<open>
  The member functions of \<^verbatim>\<open>class Chip8\<close> return \<^verbatim>\<open>void\<close>. A call either returns
  with the object updated (\<open>Inr\<close> of the new state) or does not return to its caller
  in a defined way (\<open>Inl\<close>):
  \<^item> \<open>Undefined_behaviour\<close>: \<^verbatim>\<open>std::unreachable()\<close> is reached, \<^verbatim>\<open>std::stack::top()\<close>
    is called on an empty stack, or \<^verbatim>\<open>std::array::operator[]\<close> is given an index outside
    the array. The standard puts no requirement on the program from there on: this is not
    a value the caller receives.
  \<^item> \<open>Out_of_range\<close>: \<^verbatim>\<open>std::bitset::test\<close> or \<^verbatim>\<open>flip\<close> throws \<^verbatim>\<open>std::out_of_range\<close>.
  \<^item> \<open>Assertion_failed\<close>: an \<^verbatim>\<open>assert\<close> fails and the process is aborted.
\<close>

datatype fault = Undefined_behaviour | Out_of_range | Assertion_failed

abbreviation RAM_SIZE :: nat where "RAM_SIZE \<equiv> 4096"
abbreviation MAX_PROG_SIZE :: nat where "MAX_PROG_SIZE \<equiv> 4096 - 0x200"
abbreviation PC_RESET_VALUE :: nat where "PC_RESET_VALUE \<equiv> 0x200"
abbreviation SCREEN_SIZE :: nat where "SCREEN_SIZE \<equiv> 64 * 32"
abbreviation KEYBOARD_SIZE :: nat where "KEYBOARD_SIZE \<equiv> 16"

text \<open>\<^verbatim>\<open>struct instruction_t\<close>: five bit-fields of widths 4, 4, 4, 8 and 12.\<close>

record instruction_t =
  X :: "4 word"
  Y :: "4 word"
  N :: "4 word"
  NN :: "8 word"
  NNN :: "12 word"

text \<open>The constructor \<^verbatim>\<open>instruction_t(uint16_t n)\<close>.\<close>

definition instruction_t_ctor :: "u16 \<Rightarrow> instruction_t" where
  "instruction_t_ctor n =
     \<lparr>X = ucast (drop_bit 8 n AND 0xF),
      Y = ucast (drop_bit 4 n AND 0xF),
      N = ucast (n AND 0xF),
      NN = ucast (n AND 0xFF),
      NNN = ucast (n AND 0xFFF)\<rparr>"

text \<open>
  The data members of \<^verbatim>\<open>class Chip8\<close>. \<open>ram\<close> is a \<^verbatim>\<open>std::array<uint8_t, 4096>\<close> and is
  only read and written through \<open>array_get\<close> and \<open>array_set\<close>, which check the index;
  \<open>V\<close> is a \<^verbatim>\<open>std::array<uint8_t, 16>\<close>, and every index the code uses on it is below 16,
  so it is a total function of a 4-bit index; \<open>stack\<close> is a \<^verbatim>\<open>std::stack<uint16_t>\<close> with
  its top at the head of the list; \<open>screen\<close> and \<open>keyboard\<close> are \<^verbatim>\<open>std::bitset\<close>s of 2048
  and 16 bits, read and flipped through \<open>bitset_test\<close> and \<open>bitset_flip\<close>. The members
  \<^verbatim>\<open>ips\<close> and \<^verbatim>\<open>refresh_rate\<close> are read by no member function and are left out.
\<close>

record chip8 =
  copy_vy_to_vx_in_shift :: bool
  make_BNNN_into_BXNN :: bool
  FX55_FX65_modify_I :: bool
  ram :: "nat \<Rightarrow> u8"
  PC :: u16
  I :: u16
  V :: "4 word \<Rightarrow> u8"
  stack :: "u16 list"
  delay_timer :: u8
  sound_timer :: u8
  screen :: "nat \<Rightarrow> bool"
  keyboard :: "nat \<Rightarrow> bool"

text \<open>\<^verbatim>\<open>std::array<uint8_t, RAM_SIZE>::operator[]\<close>, as an rvalue and as an lvalue.\<close>

definition array_get :: "(nat \<Rightarrow> u8) \<Rightarrow> nat \<Rightarrow> fault + u8" where
  "array_get m a = (if a < RAM_SIZE then Inr (m a) else Inl Undefined_behaviour)"

definition array_set :: "(nat \<Rightarrow> u8) \<Rightarrow> nat \<Rightarrow> u8 \<Rightarrow> fault + (nat \<Rightarrow> u8)" where
  "array_set m a v = (if a < RAM_SIZE then Inr (m(a := v)) else Inl Undefined_behaviour)"

text \<open>\<^verbatim>\<open>std::bitset<sz>::test\<close> and \<^verbatim>\<open>flip\<close>, which throw when \<open>pos\<close> is not below \<open>sz\<close>.\<close>

definition bitset_test :: "nat \<Rightarrow> (nat \<Rightarrow> bool) \<Rightarrow> nat \<Rightarrow> fault + bool" where
  "bitset_test sz bits pos = (if pos < sz then Inr (bits pos) else Inl Out_of_range)"

definition bitset_flip :: "nat \<Rightarrow> (nat \<Rightarrow> bool) \<Rightarrow> nat \<Rightarrow> fault + (nat \<Rightarrow> bool)" where
  "bitset_flip sz bits pos =
     (if pos < sz then Inr (bits(pos := \<not> bits pos)) else Inl Out_of_range)"

text \<open>The initialiser of \<open>ram\<close>: the 80 bytes of the system font, the rest zero.\<close>

definition font :: "u8 list" where
  "font =
    [0xF0, 0x90, 0x90, 0x90, 0xF0,
     0x20, 0x60, 0x20, 0x20, 0x70,
     0xF0, 0x10, 0xF0, 0x80, 0xF0,
     0xF0, 0x10, 0xF0, 0x10, 0xF0,
     0x90, 0x90, 0xF0, 0x10, 0x10,
     0xF0, 0x80, 0xF0, 0x10, 0xF0,
     0xF0, 0x80, 0xF0, 0x90, 0xF0,
     0xF0, 0x10, 0x20, 0x40, 0x40,
     0xF0, 0x90, 0xF0, 0x90, 0xF0,
     0xF0, 0x90, 0xF0, 0x10, 0xF0,
     0xF0, 0x90, 0xF0, 0x90, 0x90,
     0xE0, 0x90, 0xE0, 0x90, 0xE0,
     0xF0, 0x80, 0x80, 0x80, 0xF0,
     0xE0, 0x90, 0x90, 0x90, 0xE0,
     0xF0, 0x80, 0xF0, 0x80, 0xF0,
     0xF0, 0x80, 0xF0, 0x80, 0x80]"

text \<open>
  A default-initialised \<^verbatim>\<open>Chip8\<close> object. \<^verbatim>\<open>I\<close> and \<^verbatim>\<open>V\<close> have no initialiser in the
  class, so their first values are parameters here. The two timers start at 0, as
  \<^verbatim>\<open>chip8.hpp\<close> initialises them; the stack and both bitsets start empty.
\<close>

definition Chip8_new :: "u16 \<Rightarrow> (4 word \<Rightarrow> u8) \<Rightarrow> chip8" where
  "Chip8_new i0 v0 =
     \<lparr>copy_vy_to_vx_in_shift = False,
      make_BNNN_into_BXNN = False,
      FX55_FX65_modify_I = False,
      ram = (\<lambda>a. if a < 80 then font ! a else 0),
      PC = 0x200,
      I = i0,
      V = v0,
      stack = [],
      delay_timer = 0,
      sound_timer = 0,
      screen = (\<lambda>_. False),
      keyboard = (\<lambda>_. False)\<rparr>"

section \<open>Program load and timers\<close>

text \<open>
  \<^verbatim>\<open>Chip8::load\<close>: \<^verbatim>\<open>assert(prog.size() < MAX_PROG_SIZE)\<close>, then a \<^verbatim>\<open>memcpy\<close> of the
  whole sequence to \<^verbatim>\<open>&ram[PC_RESET_VALUE]\<close>.
\<close>

definition load :: "u8 list \<Rightarrow> chip8 \<Rightarrow> fault + chip8" where
  "load prog s =
     (if length prog < MAX_PROG_SIZE
      then Inr (s\<lparr>ram := (\<lambda>a. if PC_RESET_VALUE \<le> a \<and> a < PC_RESET_VALUE + length prog
                                then prog ! (a - PC_RESET_VALUE) else ram s a)\<rparr>)
      else Inl Assertion_failed)"

definition get_delay_timer :: "chip8 \<Rightarrow> u8" where
  "get_delay_timer s = delay_timer s"

definition get_sound_timer :: "chip8 \<Rightarrow> u8" where
  "get_sound_timer s = sound_timer s"

text \<open>\<^verbatim>\<open>--delay_timer;\<close> and \<^verbatim>\<open>--sound_timer;\<close> on a \<^verbatim>\<open>uint8_t\<close>.\<close>

definition decrement_delay_timer :: "chip8 \<Rightarrow> chip8" where
  "decrement_delay_timer s = s\<lparr>delay_timer := delay_timer s - 1\<rparr>"

definition decrement_sound_timer :: "chip8 \<Rightarrow> chip8" where
  "decrement_sound_timer s = s\<lparr>sound_timer := sound_timer s - 1\<rparr>"

text \<open>
  The timer part of one frame of the host loop in \<^verbatim>\<open>main\<close>: each decrement is called
  under the guard \<^verbatim>\<open>get_..._timer() > 0\<close>. Resuming and pausing the audio stream does not
  touch the machine and is left out.
\<close>

definition main_timer_tick :: "chip8 \<Rightarrow> chip8" where
  "main_timer_tick c =
     (let c1 = (if get_delay_timer c > 0 then decrement_delay_timer c else c)
      in if get_sound_timer c1 > 0 then decrement_sound_timer c1 else c1)"

section \<open>Instruction handlers (\<^verbatim>\<open>chip8.cpp\<close>)\<close>

definition handle_0_instr :: "instruction_t \<Rightarrow> chip8 \<Rightarrow> fault + chip8" where
  "handle_0_instr instr s =
     (if NNN instr = 0x0E0 then Inr (s\<lparr>screen := (\<lambda>_. False)\<rparr>)
      else if NNN instr = 0x0EE then
        (case stack s of
           [] \<Rightarrow> Inl Undefined_behaviour
         | t # rest \<Rightarrow> Inr (s\<lparr>PC := t, stack := rest\<rparr>))
      else Inl Undefined_behaviour)"

definition handle_1_instr :: "instruction_t \<Rightarrow> chip8 \<Rightarrow> fault + chip8" where
  "handle_1_instr instr s = Inr (s\<lparr>PC := ucast (NNN instr)\<rparr>)"

definition handle_2_instr :: "instruction_t \<Rightarrow> chip8 \<Rightarrow> fault + chip8" where
  "handle_2_instr instr s = Inr (s\<lparr>stack := PC s # stack s, PC := ucast (NNN instr)\<rparr>)"

definition handle_3_instr :: "instruction_t \<Rightarrow> chip8 \<Rightarrow> fault + chip8" where
  "handle_3_instr instr s =
     Inr (if V s (X instr) = NN instr then s\<lparr>PC := PC s + 2\<rparr> else s)"

definition handle_4_instr :: "instruction_t \<Rightarrow> chip8 \<Rightarrow> fault + chip8" where
  "handle_4_instr instr s =
     Inr (if V s (X instr) \<noteq> NN instr then s\<lparr>PC := PC s + 2\<rparr> else s)"

definition handle_5_instr :: "instruction_t \<Rightarrow> chip8 \<Rightarrow> fault + chip8" where
  "handle_5_instr instr s =
     Inr (if V s (X instr) = V s (Y instr) then s\<lparr>PC := PC s + 2\<rparr> else s)"

definition handle_6_instr :: "instruction_t \<Rightarrow> chip8 \<Rightarrow> fault + chip8" where
  "handle_6_instr instr s = Inr (s\<lparr>V := (V s)(X instr := NN instr)\<rparr>)"

definition handle_7_instr :: "instruction_t \<Rightarrow> chip8 \<Rightarrow> fault + chip8" where
  "handle_7_instr instr s = Inr (s\<lparr>V := (V s)(X instr := V s (X instr) + NN instr)\<rparr>)"

text \<open>
  \<^verbatim>\<open>handle_8_instr\<close>. Each branch follows the statements of its \<^verbatim>\<open>case\<close> in order:
  \<open>v1\<close> is the register file after the write to \<^verbatim>\<open>V[instr.X]\<close>, and the flag is computed
  from \<open>v1\<close> where the source reads the registers after that write.
\<close>

definition handle_8_instr :: "instruction_t \<Rightarrow> chip8 \<Rightarrow> fault + chip8" where
  "handle_8_instr instr s =
     (let x = X instr; y = Y instr; v = V s in
      if N instr = 0x0 then Inr (s\<lparr>V := v(x := v y)\<rparr>)
      else if N instr = 0x1 then Inr (s\<lparr>V := v(x := v x OR v y)\<rparr>)
      else if N instr = 0x2 then Inr (s\<lparr>V := v(x := v x AND v y)\<rparr>)
      else if N instr = 0x3 then Inr (s\<lparr>V := v(x := v x XOR v y)\<rparr>)
      else if N instr = 0x4 then
        (let tmp = v x;
             v1 = v(x := v x + v y)
         in Inr (s\<lparr>V := v1(0xF := (if v1 x < tmp then 1 else 0))\<rparr>))
      else if N instr = 0x5 then
        (let tmp = v x;
             v1 = v(x := v x - v y)
         in Inr (s\<lparr>V := v1(0xF := (if \<not> (v1 x > tmp) then 1 else 0))\<rparr>))
      else if N instr = 0x6 then
        (let v0 = (if copy_vy_to_vx_in_shift s then v(x := v y) else v);
             tmp = v0 x AND 0x1;
             v1 = v0(x := drop_bit 1 (v0 x))
         in Inr (s\<lparr>V := v1(0xF := tmp)\<rparr>))
      else if N instr = 0x7 then
        (let v1 = v(x := v y - v x)
         in Inr (s\<lparr>V := v1(0xF := (if \<not> (v1 x > v1 y) then 1 else 0))\<rparr>))
      else if N instr = 0xE then
        (let v0 = (if copy_vy_to_vx_in_shift s then v(x := v y) else v);
             tmp = drop_bit 7 (v0 x);
             v1 = v0(x := push_bit 1 (v0 x))
         in Inr (s\<lparr>V := v1(0xF := tmp)\<rparr>))
      else Inl Undefined_behaviour)"

definition handle_9_instr :: "instruction_t \<Rightarrow> chip8 \<Rightarrow> fault + chip8" where
  "handle_9_instr instr s =
     Inr (if V s (X instr) \<noteq> V s (Y instr) then s\<lparr>PC := PC s + 2\<rparr> else s)"

definition handle_A_instr :: "instruction_t \<Rightarrow> chip8 \<Rightarrow> fault + chip8" where
  "handle_A_instr instr s = Inr (s\<lparr>I := ucast (NNN instr)\<rparr>)"

definition handle_B_instr :: "instruction_t \<Rightarrow> chip8 \<Rightarrow> fault + chip8" where
  "handle_B_instr instr s =
     (let reg = (if make_BNNN_into_BXNN s then X instr else 0)
      in Inr (s\<lparr>PC := ucast (V s reg) + ucast (NNN instr)\<rparr>))"

text \<open>
  \<^verbatim>\<open>handle_C_instr\<close>: the byte drawn from \<^verbatim>\<open>uniform_int_distribution<>(0, 255)\<close> is the
  argument \<open>rnd\<close>.
\<close>

definition handle_C_instr :: "u8 \<Rightarrow> instruction_t \<Rightarrow> chip8 \<Rightarrow> fault + chip8" where
  "handle_C_instr rnd instr s = Inr (s\<lparr>V := (V s)(X instr := rnd AND NN instr)\<rparr>)"

text \<open>
  \<^verbatim>\<open>handle_D_instr\<close>. \<open>draw_cols\<close> is the inner loop over \<^verbatim>\<open>c\<close>, \<open>draw_rows\<close> the outer
  loop over \<^verbatim>\<open>r\<close>; both keep the source's loop conditions.
\<close>

function draw_cols :: "nat \<Rightarrow> nat \<Rightarrow> nat \<Rightarrow> u8 \<Rightarrow> nat \<Rightarrow> chip8 \<Rightarrow> fault + chip8" where
  "draw_cols x y r sprite_row c s =
     (if c < 8 \<and> x + c < 64 then
        (let screen_pix = (y + r) * 64 + x + c in
         if bit sprite_row (7 - c) then
           (case bitset_test SCREEN_SIZE (screen s) screen_pix of
              Inl e \<Rightarrow> Inl e
            | Inr b \<Rightarrow>
                (let s1 = (if b then s\<lparr>V := (V s)(0xF := 1)\<rparr> else s) in
                 case bitset_flip SCREEN_SIZE (screen s1) screen_pix of
                   Inl e \<Rightarrow> Inl e
                 | Inr scr \<Rightarrow> draw_cols x y r sprite_row (c + 1) (s1\<lparr>screen := scr\<rparr>)))
         else draw_cols x y r sprite_row (c + 1) s)
      else Inr s)"
  by pat_completeness auto
termination
  by (relation "measure (\<lambda>(x, y, r, sprite_row, c, s). 8 - c)") auto

function draw_rows :: "nat \<Rightarrow> nat \<Rightarrow> nat \<Rightarrow> nat \<Rightarrow> chip8 \<Rightarrow> fault + chip8" where
  "draw_rows x y n r s =
     (if r < n \<and> y + r < 32 then
        (case array_get (ram s) (unat (I s) + r) of
           Inl e \<Rightarrow> Inl e
         | Inr sprite_row \<Rightarrow>
             (case draw_cols x y r sprite_row 0 s of
                Inl e \<Rightarrow> Inl e
              | Inr s' \<Rightarrow> draw_rows x y n (r + 1) s'))
      else Inr s)"
  by pat_completeness auto
termination
  by (relation "measure (\<lambda>(x, y, n, r, s). n - r)") auto

definition handle_D_instr :: "instruction_t \<Rightarrow> chip8 \<Rightarrow> fault + chip8" where
  "handle_D_instr instr s =
     (let x = V s (X instr) mod 64;
          y = V s (Y instr) mod 32
      in draw_rows (unat x) (unat y) (unat (N instr)) 0 (s\<lparr>V := (V s)(0xF := 0)\<rparr>))"

definition handle_E_instr :: "instruction_t \<Rightarrow> chip8 \<Rightarrow> fault + chip8" where
  "handle_E_instr instr s =
     (if NN instr = 0x9E then
        (case bitset_test KEYBOARD_SIZE (keyboard s) (unat (V s (X instr))) of
           Inl e \<Rightarrow> Inl e
         | Inr b \<Rightarrow> Inr (if b then s\<lparr>PC := PC s + 2\<rparr> else s))
      else if NN instr = 0xA1 then
        (case bitset_test KEYBOARD_SIZE (keyboard s) (unat (V s (X instr))) of
           Inl e \<Rightarrow> Inl e
         | Inr b \<Rightarrow> Inr (if \<not> b then s\<lparr>PC := PC s + 2\<rparr> else s))
      else Inl Undefined_behaviour)"

text \<open>
  The loop of \<^verbatim>\<open>FX0A\<close> over the keys, with the \<^verbatim>\<open>return\<close> on the first pressed key and
  the \<^verbatim>\<open>PC -= 2\<close> behind the loop.
\<close>

function wait_key :: "4 word \<Rightarrow> nat \<Rightarrow> chip8 \<Rightarrow> fault + chip8" where
  "wait_key x i s =
     (if i < KEYBOARD_SIZE then
        (case bitset_test KEYBOARD_SIZE (keyboard s) i of
           Inl e \<Rightarrow> Inl e
         | Inr b \<Rightarrow> if b then Inr (s\<lparr>V := (V s)(x := of_nat i)\<rparr>)
                    else wait_key x (i + 1) s)
      else Inr (s\<lparr>PC := PC s - 2\<rparr>))"
  by pat_completeness auto
termination
  by (relation "measure (\<lambda>(x, i, s). 16 - i)") auto

text \<open>The loops of \<^verbatim>\<open>FX55\<close> and \<^verbatim>\<open>FX65\<close>, \<^verbatim>\<open>for(int i = 0; i <= instr.X; ++i)\<close>.\<close>

function store_regs :: "nat \<Rightarrow> nat \<Rightarrow> chip8 \<Rightarrow> fault + chip8" where
  "store_regs x i s =
     (if i \<le> x then
        (case array_set (ram s) (unat (I s) + i) (V s (of_nat i)) of
           Inl e \<Rightarrow> Inl e
         | Inr m \<Rightarrow> store_regs x (i + 1) (s\<lparr>ram := m\<rparr>))
      else Inr s)"
  by pat_completeness auto
termination
  by (relation "measure (\<lambda>(x, i, s). x + 1 - i)") auto

function load_regs :: "nat \<Rightarrow> nat \<Rightarrow> chip8 \<Rightarrow> fault + chip8" where
  "load_regs x i s =
     (if i \<le> x then
        (case array_get (ram s) (unat (I s) + i) of
           Inl e \<Rightarrow> Inl e
         | Inr b \<Rightarrow> load_regs x (i + 1) (s\<lparr>V := (V s)(of_nat i := b)\<rparr>))
      else Inr s)"
  by pat_completeness auto
termination
  by (relation "measure (\<lambda>(x, i, s). x + 1 - i)") auto

text \<open>
  The equations of the loops are unfolded one iteration at a time, by hand.
\<close>

declare draw_cols.simps [simp del] draw_rows.simps [simp del] wait_key.simps [simp del]
  store_regs.simps [simp del] load_regs.simps [simp del]

text \<open>
  \<^verbatim>\<open>handle_F_instr\<close> of \<^verbatim>\<open>chip8.cpp\<close>. In the \<^verbatim>\<open>FX1E\<close> case the statement
  \<^verbatim>\<open>V[0xF] = (I > 0xFFF);\<close> is commented out there. The \<^verbatim>\<open>switch\<close> has no \<^verbatim>\<open>default\<close>:
  any other \<^verbatim>\<open>NN\<close> does nothing.
\<close>

definition handle_F_instr :: "instruction_t \<Rightarrow> chip8 \<Rightarrow> fault + chip8" where
  "handle_F_instr instr s =
     (let x = X instr in
      if NN instr = 0x7 then Inr (s\<lparr>V := (V s)(x := delay_timer s)\<rparr>)
      else if NN instr = 0xA then wait_key x 0 s
      else if NN instr = 0x15 then Inr (s\<lparr>delay_timer := V s x\<rparr>)
      else if NN instr = 0x18 then Inr (s\<lparr>sound_timer := V s x\<rparr>)
      else if NN instr = 0x1E then Inr (s\<lparr>I := I s + ucast (V s x)\<rparr>)
      else if NN instr = 0x29 then
        (case array_get (ram s) (unat (V s x AND 0xF)) of
           Inl e \<Rightarrow> Inl e
         | Inr b \<Rightarrow> Inr (s\<lparr>I := ucast b\<rparr>))
      else if NN instr = 0x33 then
        (case array_set (ram s) (unat (I s) + 2) (V s x mod 10) of
           Inl e \<Rightarrow> Inl e
         | Inr m2 \<Rightarrow>
        (case array_set m2 (unat (I s) + 1) ((V s x div 10) mod 10) of
           Inl e \<Rightarrow> Inl e
         | Inr m1 \<Rightarrow>
        (case array_set m1 (unat (I s)) ((V s x div 100) mod 10) of
           Inl e \<Rightarrow> Inl e
         | Inr m0 \<Rightarrow> Inr (s\<lparr>ram := m0\<rparr>))))
      else if NN instr = 0x55 then
        (case store_regs (unat x) 0 s of
           Inl e \<Rightarrow> Inl e
         | Inr s' \<Rightarrow> Inr (if FX55_FX65_modify_I s' then s'\<lparr>I := I s' + ucast x + 1\<rparr> else s'))
      else if NN instr = 0x65 then
        (case load_regs (unat x) 0 s of
           Inl e \<Rightarrow> Inl e
         | Inr s' \<Rightarrow> Inr (if FX55_FX65_modify_I s' then s'\<lparr>I := I s' + ucast x + 1\<rparr> else s'))
      else Inr s)"

text \<open>
  \<^verbatim>\<open>handle_F_instr\<close> as the class defines it inline in the header-only copy of the
  machine. Its text is that of \<^verbatim>\<open>chip8.cpp\<close> in every case but \<^verbatim>\<open>FX1E\<close>, where the
  statement \<^verbatim>\<open>V[0xF] = (I > 0xFFF);\<close> is live.
\<close>

definition handle_F_instr_inline :: "instruction_t \<Rightarrow> chip8 \<Rightarrow> fault + chip8" where
  "handle_F_instr_inline instr s =
     (if NN instr = 0x1E then
        (let i1 = I s + ucast (V s (X instr))
         in Inr (s\<lparr>I := i1, V := (V s)(0xF := (if i1 > 0xFFF then 1 else 0))\<rparr>))
      else handle_F_instr instr s)"

section \<open>The fetch-decode-execute step\<close>

text \<open>
  \<^verbatim>\<open>cpu_next_instr\<close>: two reads of \<^verbatim>\<open>ram[PC++]\<close>, the decoding, and the \<^verbatim>\<open>switch\<close> on
  \<^verbatim>\<open>tmp >> 12\<close>. \<open>rnd\<close> is the random byte \<^verbatim>\<open>CXNN\<close> would draw in this step.
\<close>

definition cpu_next_instr :: "u8 \<Rightarrow> chip8 \<Rightarrow> fault + chip8" where
  "cpu_next_instr rnd s =
     (case array_get (ram s) (unat (PC s)) of
        Inl e \<Rightarrow> Inl e
      | Inr hi \<Rightarrow>
     (let s1 = s\<lparr>PC := PC s + 1\<rparr> in
      case array_get (ram s1) (unat (PC s1)) of
        Inl e \<Rightarrow> Inl e
      | Inr lo \<Rightarrow>
     (let s2 = s1\<lparr>PC := PC s1 + 1\<rparr>;
          tmp = push_bit 8 (ucast hi) OR (ucast lo :: u16);
          instr = instruction_t_ctor tmp;
          op = drop_bit 12 tmp
      in if op = 0x0 then handle_0_instr instr s2
         else if op = 0x1 then handle_1_instr instr s2
         else if op = 0x2 then handle_2_instr instr s2
         else if op = 0x3 then handle_3_instr instr s2
         else if op = 0x4 then handle_4_instr instr s2
         else if op = 0x5 then handle_5_instr instr s2
         else if op = 0x6 then handle_6_instr instr s2
         else if op = 0x7 then handle_7_instr instr s2
         else if op = 0x8 then handle_8_instr instr s2
         else if op = 0x9 then handle_9_instr instr s2
         else if op = 0xA then handle_A_instr instr s2
         else if op = 0xB then handle_B_instr instr s2
         else if op = 0xC then handle_C_instr rnd instr s2
         else if op = 0xD then handle_D_instr instr s2
         else if op = 0xE then handle_E_instr instr s2
         else handle_F_instr instr s2)))"

text \<open>
  The loop of \<^verbatim>\<open>main\<close> that calls \<^verbatim>\<open>cpu_next_instr\<close> repeatedly, one random byte
  of the list for each call.
\<close>

fun cpu_run :: "u8 list \<Rightarrow> chip8 \<Rightarrow> fault + chip8" where
  "cpu_run [] s = Inr s"
| "cpu_run (rnd # rnds) s =
     (case cpu_next_instr rnd s of Inl e \<Rightarrow> Inl e | Inr s' \<Rightarrow> cpu_run rnds s')"

section \<open>Notions used to state the properties\<close>

text \<open>The big-endian 16-bit word at \<open>[PC, PC + 2)\<close>, which a step fetches.\<close>

definition fetched_word :: "chip8 \<Rightarrow> u16" where
  "fetched_word s =
     push_bit 8 (ucast (ram s (unat (PC s)))) OR ucast (ram s (unat (PC s) + 1))"

text \<open>
  The machine as \<^verbatim>\<open>main\<close> prepares it: constructed, then loaded with a program (the
  constructed machine itself when \<open>load\<close> rejects the program).
\<close>

definition booted :: "u8 list \<Rightarrow> u16 \<Rightarrow> (4 word \<Rightarrow> u8) \<Rightarrow> chip8" where
  "booted prog i0 v0 =
     (case load prog (Chip8_new i0 v0) of Inr s \<Rightarrow> s | Inl _ \<Rightarrow> Chip8_new i0 v0)"

text \<open>
  The sprite bits one execution of the inner loop of \<^verbatim>\<open>handle_D_instr\<close> visits from
  column index \<open>c\<close> on, as a set of pixels: \<open>p\<close> lies in display row \<open>y + r\<close>, at a column
  from \<open>x + c\<close> to \<open>x + 7\<close>, and the bit of the sprite row for that column is set. A pixel
  \<open>p\<close> is in display row \<open>p div 64\<close> and column \<open>p mod 64\<close>.
\<close>

definition col_bit :: "nat \<Rightarrow> nat \<Rightarrow> nat \<Rightarrow> u8 \<Rightarrow> nat \<Rightarrow> nat \<Rightarrow> bool" where
  "col_bit x y r row c p =
     (p div 64 = y + r \<and> x + c \<le> p mod 64 \<and> p mod 64 < x + 8 \<and>
      bit row (7 - (p mod 64 - x)))"

text \<open>
  The same for the outer loop from row index \<open>r\<close> on, for a sprite of \<open>n\<close> rows read from
  the memory \<open>m\<close> at address \<open>a\<close>: only rows of the display, below 32, count.
\<close>

definition sprite_from :: "(nat \<Rightarrow> u8) \<Rightarrow> nat \<Rightarrow> nat \<Rightarrow> nat \<Rightarrow> nat \<Rightarrow> nat \<Rightarrow> nat \<Rightarrow> bool" where
  "sprite_from m a x y n r p =
     (y + r \<le> p div 64 \<and> p div 64 < y + n \<and> p div 64 < 32 \<and>
      x \<le> p mod 64 \<and> p mod 64 < x + 8 \<and>
      bit (m (a + (p div 64 - y))) (7 - (p mod 64 - x)))"

text \<open>The set bits of the sprite of a \<^verbatim>\<open>DXYN\<close> instruction that fall on the display.\<close>

definition sprite_at :: "chip8 \<Rightarrow> instruction_t \<Rightarrow> nat \<Rightarrow> bool" where
  "sprite_at s instr p =
     sprite_from (ram s) (unat (I s)) (unat (V s (X instr) mod 64)) (unat (V s (Y instr) mod 32))
       (unat (N instr)) 0 p"

text \<open>
  The sprite rows that \<^verbatim>\<open>DXYN\<close> reads, \<open>min N (32 - y)\<close> of them from \<open>I\<close> on, lie inside
  the memory.
\<close>

definition rows_in_memory :: "chip8 \<Rightarrow> instruction_t \<Rightarrow> bool" where
  "rows_in_memory s instr =
     (let rows = min (unat (N instr)) (32 - unat (V s (Y instr) mod 32))
      in rows = 0 \<or> unat (I s) + rows \<le> 4096)"

section \<open>Font glyph address (\<^verbatim>\<open>FX29\<close>)\<close>

text \<open>
  The \<^verbatim>\<open>FX29\<close> case is \<^verbatim>\<open>I = ram[V[instr.X] & 0xF];\<close>: the index register receives the
  byte stored at address \<open>V[X] & 0xF\<close>, for every state. The access is always inside the
  array, since the index is at most 15.
\<close>

lemma FX29_reads_ram:
  "handle_F_instr (instr\<lparr>NN := 0x29\<rparr>) s =
     Inr (s\<lparr>I := ucast (ram s (unat (V s (X instr) AND 0xF)))\<rparr>)"
proof -
  have "unat (V s (X instr) AND 0xF) \<le> unat (0xF :: u8)"
    by (rule word_and_le1 [THEN word_le_nat_alt [THEN iffD1]])
  then have "unat (V s (X instr) AND 0xF) < 4096" by simp
  then show ?thesis by (simp add: handle_F_instr_def array_get_def)
qed

text \<open>
  Claim C1. The claim: after \<^verbatim>\<open>FX29\<close>, \<open>I = 5 * (V[X] & 0xF)\<close>, the start address of the
  glyph. On a freshly constructed machine whose registers are all 0, \<^verbatim>\<open>FX29\<close> sets
  \<open>I\<close> to \<open>0xF0\<close>, the first byte of the glyph of the digit 0, where the claim asks for
  the address 0.
\<close>

theorem FX29_fresh_machine_glyph_zero:
  "handle_F_instr (instr\<lparr>NN := 0x29\<rparr>) (Chip8_new i0 (\<lambda>_. 0)) =
     Inr ((Chip8_new i0 (\<lambda>_. 0))\<lparr>I := 0xF0\<rparr>)"
  by (simp add: handle_F_instr_def array_get_def Chip8_new_def font_def)

section \<open>Timers\<close>

text \<open>
  Claim C2, as stated: decrementing a timer that is 0 leaves it at 0. Both decrement
  operations take a timer at 0 to 255.
\<close>

theorem decrement_timer_at_zero_wraps:
  "delay_timer (decrement_delay_timer (Chip8_new 0 (\<lambda>_. 0))) = 255 \<and>
   sound_timer (decrement_sound_timer (Chip8_new 0 (\<lambda>_. 0))) = 255"
  by (simp add: decrement_delay_timer_def decrement_sound_timer_def Chip8_new_def)

text \<open>
  Claim C2, amended: each decrement operation subtracts 1 with 8-bit wrap-around; the
  floor at 0 is the guard of the host loop, whose timer tick leaves a timer that is 0 at 0
  and takes every other value down by 1.
\<close>

theorem timer_decrement_wraps_host_tick_saturates:
  "delay_timer (decrement_delay_timer s) = delay_timer s - 1 \<and>
   sound_timer (decrement_sound_timer s) = sound_timer s - 1 \<and>
   delay_timer (main_timer_tick s) = (if delay_timer s = 0 then 0 else delay_timer s - 1) \<and>
   sound_timer (main_timer_tick s) = (if sound_timer s = 0 then 0 else sound_timer s - 1)"
  by (simp add: decrement_delay_timer_def decrement_sound_timer_def main_timer_tick_def
      get_delay_timer_def get_sound_timer_def Let_def word_greater_zero_iff)

section \<open>Program load\<close>

text \<open>
  A sequence shorter than \<open>MAX_PROG_SIZE\<close> is copied to \<open>0x200\<close> and the rest of the
  memory, like the rest of the machine, keeps its value.
\<close>

lemma load_below_budget:
  "length prog < 3584 \<Longrightarrow>
   load prog s = Inr (s\<lparr>ram := (\<lambda>a. if 0x200 \<le> a \<and> a < 0x200 + length prog
                                then prog ! (a - 0x200) else ram s a)\<rparr>)"
  by (simp add: load_def)

lemma load_fails_iff: "load prog s = Inl Assertion_failed \<longleftrightarrow> 3584 \<le> length prog"
  by (simp add: load_def)

text \<open>
  Claim C3. The claim: a sequence of at most 3584 bytes, and one of exactly 3584 bytes
  in particular, is loaded. A sequence of exactly 3584 bytes, which fills the memory from
  \<open>0x200\<close> to its last byte, fails the assertion of \<open>load\<close>.
\<close>

theorem load_full_budget_fails: "load (replicate 3584 b) s = Inl Assertion_failed"
  by (simp add: load_def)

section \<open>Adding to the index register (\<^verbatim>\<open>FX1E\<close>)\<close>

text \<open>
  Claim C4, as stated: executing \<^verbatim>\<open>FX1E\<close> leaves \<open>VF\<close> unchanged. In the inline handler
  of the header, \<^verbatim>\<open>F01E\<close> with \<open>I = 0xFFF\<close>, \<open>V0 = 1\<close> and \<open>VF = 0\<close> ends with
  \<open>I = 0x1000\<close> and \<open>VF = 1\<close>.
\<close>

theorem FX1E_inline_writes_VF:
  "handle_F_instr_inline (instruction_t_ctor 0xF01E) (Chip8_new 0xFFF ((\<lambda>_. 0)(0 := 1))) =
     Inr (Chip8_new 0x1000 ((\<lambda>_. 0)(0 := 1, 0xF := 1)))"
  by (simp add: handle_F_instr_inline_def instruction_t_ctor_def Chip8_new_def)

text \<open>
  Claim C4, amended: \<^verbatim>\<open>FX1E\<close> adds \<open>V[X]\<close> to \<open>I\<close> with 16-bit wrap-around. The handler
  of \<^verbatim>\<open>chip8.cpp\<close> changes nothing else, in every configuration (there is no switch for
  the flag); the inline handler of the header then always writes \<open>VF\<close>: 1 when the new \<open>I\<close>
  is above \<open>0xFFF\<close>, 0 otherwise.
\<close>

theorem FX1E_adds_to_I_and_flag_by_variant:
  "handle_F_instr (instr\<lparr>NN := 0x1E\<rparr>) s = Inr (s\<lparr>I := I s + ucast (V s (X instr))\<rparr>) \<and>
   handle_F_instr_inline (instr\<lparr>NN := 0x1E\<rparr>) s =
     Inr (s\<lparr>I := I s + ucast (V s (X instr)),
            V := (V s)(0xF := (if I s + ucast (V s (X instr)) > 0xFFF then 1 else 0))\<rparr>)"
  by (simp add: handle_F_instr_def handle_F_instr_inline_def Let_def)

section \<open>Subtraction with borrow flag (\<^verbatim>\<open>8XY5\<close>, \<^verbatim>\<open>8XY7\<close>)\<close>

text \<open>
  The register file after each of the two instructions: the difference is written to
  \<open>V[X]\<close> first and the flag to \<open>VF\<close> afterwards, so the flag is what \<open>VF\<close> holds when
  \<open>X\<close> is \<open>0xF\<close>.
\<close>

lemma handle_8_sub_eq:
  "handle_8_instr (instr\<lparr>N := 0x5\<rparr>) s =
     Inr (s\<lparr>V := ((V s)(X instr := V s (X instr) - V s (Y instr)))
                    (0xF := (if V s (Y instr) \<le> V s (X instr) then 1 else 0))\<rparr>)"
  by (simp add: handle_8_instr_def Let_def word_sub_le_iff not_less)

lemma handle_8_rsub_eq:
  "handle_8_instr (instr\<lparr>N := 0x7\<rparr>) s =
     Inr (s\<lparr>V := ((V s)(X instr := V s (Y instr) - V s (X instr)))
                    (0xF := (if V s (X instr) \<le> V s (Y instr) then 1 else 0))\<rparr>)"
  by (simp add: handle_8_instr_def Let_def word_sub_le_iff not_less)

text \<open>
  Claim C7. For all register indices and all states, \<^verbatim>\<open>8XY5\<close> ends with \<open>VF = 1\<close> if
  \<open>V[X] \<ge> V[Y]\<close> held before and \<open>VF = 0\<close> otherwise, and with \<open>V[X] - V[Y]\<close> modulo 256
  in \<open>V[X]\<close> when \<open>X\<close> is not \<open>0xF\<close>; \<^verbatim>\<open>8XY7\<close> likewise with the operands exchanged.
  The flag is the last write: \<open>VF\<close> holds the flag also when \<open>X\<close> is \<open>0xF\<close>.
\<close>

theorem sub_8XY5_8XY7_flag_and_result:
  "(N instr = 0x5 \<longrightarrow>
      (\<exists>s'. handle_8_instr instr s = Inr s' \<and>
         V s' 0xF = (if V s (X instr) \<ge> V s (Y instr) then 1 else 0) \<and>
         (X instr \<noteq> 0xF \<longrightarrow> V s' (X instr) = V s (X instr) - V s (Y instr)))) \<and>
   (N instr = 0x7 \<longrightarrow>
      (\<exists>s'. handle_8_instr instr s = Inr s' \<and>
         V s' 0xF = (if V s (Y instr) \<ge> V s (X instr) then 1 else 0) \<and>
         (X instr \<noteq> 0xF \<longrightarrow> V s' (X instr) = V s (Y instr) - V s (X instr))))"
proof (intro conjI impI)
  assume "N instr = 0x5"
  then have "instr\<lparr>N := 0x5\<rparr> = instr" by simp
  then show "\<exists>s'. handle_8_instr instr s = Inr s' \<and>
         V s' 0xF = (if V s (X instr) \<ge> V s (Y instr) then 1 else 0) \<and>
         (X instr \<noteq> 0xF \<longrightarrow> V s' (X instr) = V s (X instr) - V s (Y instr))"
    using handle_8_sub_eq [of instr s] by simp
next
  assume "N instr = 0x7"
  then have "instr\<lparr>N := 0x7\<rparr> = instr" by simp
  then show "\<exists>s'. handle_8_instr instr s = Inr s' \<and>
         V s' 0xF = (if V s (Y instr) \<ge> V s (X instr) then 1 else 0) \<and>
         (X instr \<noteq> 0xF \<longrightarrow> V s' (X instr) = V s (Y instr) - V s (X instr))"
    using handle_8_rsub_eq [of instr s] by simp
qed

text \<open>
  The theorem at \<^verbatim>\<open>8125\<close> and \<^verbatim>\<open>8127\<close> with \<open>V1 = 3\<close> and \<open>V2 = 5\<close>: a borrow in the
  first (\<open>VF = 0\<close>, \<open>V1 = 254\<close>), none in the second (\<open>VF = 1\<close>, \<open>V1 = 2\<close>).
\<close>

theorem sub_8XY5_8XY7_flag_and_result_witness:
  "N (instruction_t_ctor 0x8125) = 0x5 \<and> X (instruction_t_ctor 0x8125) \<noteq> 0xF \<and>
   (\<exists>s'. handle_8_instr (instruction_t_ctor 0x8125)
            (Chip8_new 0 ((\<lambda>_. 0)(1 := 3, 2 := 5))) = Inr s' \<and>
         V s' 0xF = 0 \<and> V s' 1 = 254) \<and>
   N (instruction_t_ctor 0x8127) = 0x7 \<and> X (instruction_t_ctor 0x8127) \<noteq> 0xF \<and>
   (\<exists>s'. handle_8_instr (instruction_t_ctor 0x8127)
            (Chip8_new 0 ((\<lambda>_. 0)(1 := 3, 2 := 5))) = Inr s' \<and>
         V s' 0xF = 1 \<and> V s' 1 = 2)"
  using
    sub_8XY5_8XY7_flag_and_result
      [of "instruction_t_ctor 0x8125" "Chip8_new 0 ((\<lambda>_. 0)(1 := 3, 2 := 5))"]
    sub_8XY5_8XY7_flag_and_result
      [of "instruction_t_ctor 0x8127" "Chip8_new 0 ((\<lambda>_. 0)(1 := 3, 2 := 5))"]
  by (simp add: instruction_t_ctor_def Chip8_new_def handle_8_instr_def Let_def)

section \<open>The step: fetch and dispatch\<close>

lemma unat_PC_succ: "unat (pc :: u16) + 1 < 4096 \<Longrightarrow> unat (pc + 1) = unat pc + 1"
  by (simp add: unat_word_ariths)

text \<open>
  When both bytes of the instruction lie inside the memory, the step is the dispatch of
  the fetched word on the state whose \<open>PC\<close> has advanced by 2.
\<close>

lemma cpu_next_instr_fetch:
  assumes "unat (PC s) + 1 < 4096"
  shows "cpu_next_instr rnd s =
     (let s2 = s\<lparr>PC := PC s + 2\<rparr>;
          tmp = fetched_word s;
          instr = instruction_t_ctor tmp;
          op = drop_bit 12 tmp
      in if op = 0x0 then handle_0_instr instr s2
         else if op = 0x1 then handle_1_instr instr s2
         else if op = 0x2 then handle_2_instr instr s2
         else if op = 0x3 then handle_3_instr instr s2
         else if op = 0x4 then handle_4_instr instr s2
         else if op = 0x5 then handle_5_instr instr s2
         else if op = 0x6 then handle_6_instr instr s2
         else if op = 0x7 then handle_7_instr instr s2
         else if op = 0x8 then handle_8_instr instr s2
         else if op = 0x9 then handle_9_instr instr s2
         else if op = 0xA then handle_A_instr instr s2
         else if op = 0xB then handle_B_instr instr s2
         else if op = 0xC then handle_C_instr rnd instr s2
         else if op = 0xD then handle_D_instr instr s2
         else if op = 0xE then handle_E_instr instr s2
         else handle_F_instr instr s2)"
proof -
  have a: "unat (PC s) < 4096" using assms by simp
  have b: "unat (PC s + 1) = unat (PC s) + 1" using assms by (rule unat_PC_succ)
  have c: "PC s + 1 + 1 = PC s + 2" by simp
  show ?thesis
    unfolding cpu_next_instr_def fetched_word_def
    using a assms by (simp add: array_get_def b c Let_def)
qed

lemma booted_PC: "PC (booted prog i0 v0) = 0x200"
  by (simp add: booted_def load_def Chip8_new_def)

lemma fetched_booted:
  "length prog < 3582 \<Longrightarrow>
   fetched_word (booted (a # b # prog) i0 v0) = push_bit 8 (ucast a) OR ucast b"
  by (simp add: fetched_word_def booted_def load_def Chip8_new_def)

section \<open>Instructions outside the instruction set\<close>

lemma step_invalid_0:
  assumes "unat (PC s) + 1 < 4096" and "drop_bit 12 (fetched_word s) = 0x0"
    and "NNN (instruction_t_ctor (fetched_word s)) \<noteq> 0x0E0"
    and "NNN (instruction_t_ctor (fetched_word s)) \<noteq> 0x0EE \<or> stack s = []"
  shows "cpu_next_instr rnd s = Inl Undefined_behaviour"
  using assms by (auto simp add: cpu_next_instr_fetch Let_def handle_0_instr_def)

lemma step_invalid_8:
  assumes "unat (PC s) + 1 < 4096" and "drop_bit 12 (fetched_word s) = 0x8"
    and "N (instruction_t_ctor (fetched_word s))
           \<notin> {0x0, 0x1, 0x2, 0x3, 0x4, 0x5, 0x6, 0x7, 0xE}"
  shows "cpu_next_instr rnd s = Inl Undefined_behaviour"
  using assms by (simp add: cpu_next_instr_fetch Let_def handle_8_instr_def)

lemma step_invalid_E:
  assumes "unat (PC s) + 1 < 4096" and "drop_bit 12 (fetched_word s) = 0xE"
    and "NN (instruction_t_ctor (fetched_word s)) \<notin> {0x9E, 0xA1}"
  shows "cpu_next_instr rnd s = Inl Undefined_behaviour"
  using assms by (simp add: cpu_next_instr_fetch Let_def handle_E_instr_def)

text \<open>
  Claim C5, as stated: on an instruction outside the instruction set the step ends with
  a tagged error outcome that the caller receives. The step on \<^verbatim>\<open>0123\<close> (family 0,
  \<open>NNN\<close> neither \<open>0x0E0\<close> nor \<open>0x0EE\<close>) reaches \<^verbatim>\<open>std::unreachable()\<close>: its behaviour is
  undefined, and no outcome is handed to the caller.
\<close>

theorem step_on_0123_is_undefined:
  "cpu_next_instr 0 (booted [0x01, 0x23] 0 (\<lambda>_. 0)) = Inl Undefined_behaviour"
  by (simp add: cpu_next_instr_def booted_def load_def Chip8_new_def array_get_def
      instruction_t_ctor_def handle_0_instr_def Let_def)

text \<open>
  Claim C5, amended: for every fetched instruction word of family 0 whose \<open>NNN\<close> is
  neither \<open>0x0E0\<close> nor \<open>0x0EE\<close>, of family 8 whose \<open>N\<close> is not one of 0 to 7 or \<open>0xE\<close>,
  of family \<open>0xE\<close> whose \<open>NN\<close> is neither \<open>0x9E\<close> nor \<open>0xA1\<close>, and for \<^verbatim>\<open>00EE\<close> on an
  empty call stack, the step has undefined behaviour (\<^verbatim>\<open>std::unreachable()\<close>, or
  \<^verbatim>\<open>top()\<close> of an empty \<^verbatim>\<open>std::stack\<close>); the step returns \<^verbatim>\<open>void\<close> and has no error
  outcome.
\<close>

theorem invalid_instruction_step_is_undefined:
  assumes "unat (PC s) + 1 < 4096"
    and "(drop_bit 12 (fetched_word s) = 0x0 \<and>
           NNN (instruction_t_ctor (fetched_word s)) \<noteq> 0x0E0 \<and>
           (NNN (instruction_t_ctor (fetched_word s)) \<noteq> 0x0EE \<or> stack s = [])) \<or>
         (drop_bit 12 (fetched_word s) = 0x8 \<and>
           N (instruction_t_ctor (fetched_word s))
             \<notin> {0x0, 0x1, 0x2, 0x3, 0x4, 0x5, 0x6, 0x7, 0xE}) \<or>
         (drop_bit 12 (fetched_word s) = 0xE \<and>
           NN (instruction_t_ctor (fetched_word s)) \<notin> {0x9E, 0xA1})"
  shows "cpu_next_instr rnd s = Inl Undefined_behaviour"
  using assms(2)
proof (elim disjE conjE)
  assume "drop_bit 12 (fetched_word s) = 0x0"
    "NNN (instruction_t_ctor (fetched_word s)) \<noteq> 0x0E0"
    "NNN (instruction_t_ctor (fetched_word s)) \<noteq> 0x0EE"
  then show ?thesis using assms(1) by (intro step_invalid_0) simp_all
next
  assume "drop_bit 12 (fetched_word s) = 0x0"
    "NNN (instruction_t_ctor (fetched_word s)) \<noteq> 0x0E0"
    "stack s = []"
  then show ?thesis using assms(1) by (intro step_invalid_0) simp_all
next
  assume "drop_bit 12 (fetched_word s) = 0x8"
    "N (instruction_t_ctor (fetched_word s))
       \<notin> {0x0, 0x1, 0x2, 0x3, 0x4, 0x5, 0x6, 0x7, 0xE}"
  then show ?thesis using assms(1) by (intro step_invalid_8)
next
  assume "drop_bit 12 (fetched_word s) = 0xE"
    "NN (instruction_t_ctor (fetched_word s)) \<notin> {0x9E, 0xA1}"
  then show ?thesis using assms(1) by (intro step_invalid_E)
qed

text \<open>
  The theorem on four machines booted with one instruction each: \<^verbatim>\<open>0123\<close>, \<^verbatim>\<open>00EE\<close>
  (the call stack of a booted machine is empty), \<^verbatim>\<open>8129\<close> and \<^verbatim>\<open>E300\<close>.
\<close>

theorem invalid_instruction_step_is_undefined_witness:
  "unat (PC (booted [0x01, 0x23] 0 (\<lambda>_. 0))) + 1 < 4096 \<and>
   drop_bit 12 (fetched_word (booted [0x01, 0x23] 0 (\<lambda>_. 0))) = 0x0 \<and>
   NNN (instruction_t_ctor (fetched_word (booted [0x01, 0x23] 0 (\<lambda>_. 0)))) = 0x123 \<and>
   cpu_next_instr 0 (booted [0x01, 0x23] 0 (\<lambda>_. 0)) = Inl Undefined_behaviour \<and>
   NNN (instruction_t_ctor (fetched_word (booted [0x00, 0xEE] 0 (\<lambda>_. 0)))) = 0x0EE \<and>
   stack (booted [0x00, 0xEE] 0 (\<lambda>_. 0)) = [] \<and>
   cpu_next_instr 0 (booted [0x00, 0xEE] 0 (\<lambda>_. 0)) = Inl Undefined_behaviour \<and>
   drop_bit 12 (fetched_word (booted [0x81, 0x29] 0 (\<lambda>_. 0))) = 0x8 \<and>
   N (instruction_t_ctor (fetched_word (booted [0x81, 0x29] 0 (\<lambda>_. 0)))) = 0x9 \<and>
   cpu_next_instr 0 (booted [0x81, 0x29] 0 (\<lambda>_. 0)) = Inl Undefined_behaviour \<and>
   drop_bit 12 (fetched_word (booted [0xE3, 0x00] 0 (\<lambda>_. 0))) = 0xE \<and>
   NN (instruction_t_ctor (fetched_word (booted [0xE3, 0x00] 0 (\<lambda>_. 0)))) = 0x00 \<and>
   cpu_next_instr 0 (booted [0xE3, 0x00] 0 (\<lambda>_. 0)) = Inl Undefined_behaviour"
proof -
  have st: "stack (booted [0x00, 0xEE] 0 (\<lambda>_. 0)) = []"
    by (simp add: booted_def load_def Chip8_new_def)
  show ?thesis
    using invalid_instruction_step_is_undefined [of "booted [0x01, 0x23] 0 (\<lambda>_. 0)" 0]
      invalid_instruction_step_is_undefined [of "booted [0x00, 0xEE] 0 (\<lambda>_. 0)" 0]
      invalid_instruction_step_is_undefined [of "booted [0x81, 0x29] 0 (\<lambda>_. 0)" 0]
      invalid_instruction_step_is_undefined [of "booted [0xE3, 0x00] 0 (\<lambda>_. 0)" 0]
      st
    by (simp add: fetched_booted booted_PC instruction_t_ctor_def)
qed

section \<open>Blocking key wait (\<^verbatim>\<open>FX0A\<close>)\<close>

lemma wait_key_none:
  "(\<And>k. i \<le> k \<Longrightarrow> k < 16 \<Longrightarrow> \<not> keyboard s k) \<Longrightarrow>
   wait_key x i s = Inr (s\<lparr>PC := PC s - 2\<rparr>)"
proof (induction x i s rule: wait_key.induct)
  case (1 x i s)
  show ?case
  proof (cases "i < 16")
    case True
    then have nk: "\<not> keyboard s i" using "1.prems" by simp
    have bt: "bitset_test 16 (keyboard s) i = Inr (keyboard s i)"
      using True by (simp add: bitset_test_def)
    have "wait_key x (i + 1) s = Inr (s\<lparr>PC := PC s - 2\<rparr>)"
      using "1.prems" by (intro "1.IH" [OF True bt nk]) simp_all
    then show ?thesis using True nk by (subst wait_key.simps) (simp add: bitset_test_def)
  next
    case False
    then show ?thesis by (subst wait_key.simps) simp
  qed
qed

lemma wait_key_first:
  "i \<le> k \<Longrightarrow> k < 16 \<Longrightarrow> keyboard s k \<Longrightarrow> (\<And>j. i \<le> j \<Longrightarrow> j < k \<Longrightarrow> \<not> keyboard s j) \<Longrightarrow>
   wait_key x i s = Inr (s\<lparr>V := (V s)(x := of_nat k)\<rparr>)"
proof (induction x i s rule: wait_key.induct)
  case (1 x i s)
  have i16: "i < 16" using "1.prems" by simp
  show ?case
  proof (cases "i = k")
    case True
    then show ?thesis
      using i16 "1.prems" by (subst wait_key.simps) (simp add: bitset_test_def)
  next
    case False
    then have lt: "i < k" using "1.prems" by simp
    then have nk: "\<not> keyboard s i" using "1.prems" by simp
    have bt: "bitset_test 16 (keyboard s) i = Inr (keyboard s i)"
      using i16 by (simp add: bitset_test_def)
    have "wait_key x (i + 1) s = Inr (s\<lparr>V := (V s)(x := of_nat k)\<rparr>)"
      using lt "1.prems" by (intro "1.IH" [OF i16 bt nk]) simp_all
    then show ?thesis using i16 nk by (subst wait_key.simps) (simp add: bitset_test_def)
  qed
qed

lemma step_FX0A_idle:
  assumes "unat (PC s) + 1 < 4096"
    and "drop_bit 12 (fetched_word s) = 0xF"
    and "NN (instruction_t_ctor (fetched_word s)) = 0x0A"
    and "\<forall>k<16. \<not> keyboard s k"
  shows "cpu_next_instr rnd s = Inr s"
proof -
  have "wait_key x 0 (s\<lparr>PC := PC s + 2\<rparr>) =
          Inr (s\<lparr>PC := PC s + 2\<rparr>\<lparr>PC := PC (s\<lparr>PC := PC s + 2\<rparr>) - 2\<rparr>)" for x
    using assms(4) by (intro wait_key_none) simp
  then show ?thesis
    using assms by (simp add: cpu_next_instr_fetch Let_def handle_F_instr_def)
qed

text \<open>
  Claim C10. For every step that fetches an instruction of family \<open>0xF\<close> with
  \<open>NN = 0x0A\<close>: when none of the 16 keys is pressed the step returns the state it started
  from, \<open>PC\<close> included, and so does any number of further steps; when the key \<open>k\<close> is the
  lowest-indexed pressed key, the step stores \<open>k\<close> in \<open>V[X]\<close> and leaves \<open>PC\<close> advanced
  by 2.
\<close>

theorem FX0A_blocking_key_wait:
  assumes "unat (PC s) + 1 < 4096"
    and "drop_bit 12 (fetched_word s) = 0xF"
    and "NN (instruction_t_ctor (fetched_word s)) = 0x0A"
  shows "((\<forall>k<16. \<not> keyboard s k) \<longrightarrow>
            cpu_next_instr rnd s = Inr s \<and> cpu_run rnds s = Inr s) \<and>
         (k < 16 \<and> keyboard s k \<and> (\<forall>j<k. \<not> keyboard s j) \<longrightarrow>
            cpu_next_instr rnd s =
              Inr (s\<lparr>PC := PC s + 2,
                     V := (V s)(X (instruction_t_ctor (fetched_word s)) := of_nat k)\<rparr>))"
proof (intro conjI impI)
  assume nk: "\<forall>k<16. \<not> keyboard s k"
  show "cpu_next_instr rnd s = Inr s" using assms nk by (rule step_FX0A_idle)
  have "cpu_next_instr r s = Inr s" for r using assms nk by (rule step_FX0A_idle)
  then show "cpu_run rnds s = Inr s" by (induction rnds) simp_all
next
  assume k: "k < 16 \<and> keyboard s k \<and> (\<forall>j<k. \<not> keyboard s j)"
  have "wait_key x 0 (s\<lparr>PC := PC s + 2\<rparr>) =
          Inr (s\<lparr>PC := PC s + 2\<rparr>\<lparr>V := (V (s\<lparr>PC := PC s + 2\<rparr>))(x := of_nat k)\<rparr>)" for x
    using k by (intro wait_key_first) simp_all
  then show "cpu_next_instr rnd s =
              Inr (s\<lparr>PC := PC s + 2,
                     V := (V s)(X (instruction_t_ctor (fetched_word s)) := of_nat k)\<rparr>)"
    using assms by (simp add: cpu_next_instr_fetch Let_def handle_F_instr_def)
qed

text \<open>
  The theorem on a machine booted with \<^verbatim>\<open>F30A\<close>: with no key pressed, one step and
  three steps return the booted machine; with the keys 5 and 9 pressed, the step stores
  5 in \<open>V3\<close> and ends with \<open>PC = 0x202\<close>.
\<close>

theorem FX0A_blocking_key_wait_witness:
  "unat (PC (booted [0xF3, 0x0A] 0 (\<lambda>_. 0))) + 1 < 4096 \<and>
   drop_bit 12 (fetched_word (booted [0xF3, 0x0A] 0 (\<lambda>_. 0))) = 0xF \<and>
   NN (instruction_t_ctor (fetched_word (booted [0xF3, 0x0A] 0 (\<lambda>_. 0)))) = 0x0A \<and>
   keyboard (booted [0xF3, 0x0A] 0 (\<lambda>_. 0)) = (\<lambda>_. False) \<and>
   cpu_next_instr 0 (booted [0xF3, 0x0A] 0 (\<lambda>_. 0)) = Inr (booted [0xF3, 0x0A] 0 (\<lambda>_. 0)) \<and>
   cpu_run [1, 2, 3] (booted [0xF3, 0x0A] 0 (\<lambda>_. 0)) = Inr (booted [0xF3, 0x0A] 0 (\<lambda>_. 0)) \<and>
   cpu_next_instr 0 ((booted [0xF3, 0x0A] 0 (\<lambda>_. 0))\<lparr>keyboard := (\<lambda>k. k = 5 \<or> k = 9)\<rparr>) =
     Inr ((booted [0xF3, 0x0A] 0 (\<lambda>_. 0))
            \<lparr>keyboard := (\<lambda>k. k = 5 \<or> k = 9), PC := 0x202, V := (\<lambda>_. 0)(3 := 5)\<rparr>)"
proof -
  let ?s = "booted [0xF3, 0x0A] 0 (\<lambda>_. 0)"
  let ?t = "?s\<lparr>keyboard := (\<lambda>k. k = 5 \<or> k = 9)\<rparr>"
  have kb: "keyboard ?s = (\<lambda>_. False)"
    by (simp add: booted_def load_def Chip8_new_def)
  have vs: "V ?s = (\<lambda>_. 0)"
    by (simp add: booted_def load_def Chip8_new_def)
  have ft: "fetched_word ?t = fetched_word ?s"
    by (simp add: fetched_word_def)
  show ?thesis
    using FX0A_blocking_key_wait [where s = ?s and rnd = 0 and rnds = "[1, 2, 3]"]
      FX0A_blocking_key_wait [where s = ?t and rnd = 0 and k = 5] kb
    by (simp add: ft vs fetched_booted booted_PC instruction_t_ctor_def)
qed

section \<open>Sprite drawing (\<^verbatim>\<open>DXYN\<close>)\<close>

subsection \<open>The inner loop over the columns\<close>

lemma pix_div_mod:
  "x + c < 64 \<Longrightarrow> ((y + r) * 64 + x + c) div 64 = y + r \<and> ((y + r) * 64 + x + c) mod 64 = x + c"
  for x c y r :: nat
  by (simp add: add.assoc)

lemma col_bit_step:
  assumes "c < 8" "x + c < 64"
  shows "col_bit x y r row c p =
     ((p = (y + r) * 64 + x + c \<and> bit row (7 - c)) \<or> col_bit x y r row (c + 1) p)"
proof (cases "p = (y + r) * 64 + x + c")
  case True
  then show ?thesis using pix_div_mod [OF assms(2), of y r] assms
    by (simp add: col_bit_def)
next
  case False
  have "p div 64 = y + r \<Longrightarrow> p mod 64 \<noteq> x + c"
  proof
    assume "p div 64 = y + r" "p mod 64 = x + c"
    then have "p = (y + r) * 64 + x + c"
      using div_mult_mod_eq [of p 64] by simp
    with False show False by simp
  qed
  then show ?thesis using False by (auto simp add: col_bit_def)
qed

lemma col_bit_done: "\<not> (c < 8 \<and> x + c < 64) \<Longrightarrow> \<not> col_bit x y r row c p"
proof -
  have "p mod 64 < 64" by simp
  then show "\<not> (c < 8 \<and> x + c < 64) \<Longrightarrow> \<not> col_bit x y r row c p"
    by (auto simp add: col_bit_def)
qed

lemma draw_cols_exit:
  assumes "\<not> (c < 8 \<and> x + c < 64)"
  shows "draw_cols x y r row c s = Inr s"
  by (subst draw_cols.simps, subst if_not_P [OF assms], rule refl)

lemma draw_cols_eq:
  assumes "y + r < 32"
  shows "draw_cols x y r row c s =
     Inr (s\<lparr>screen := (\<lambda>p. screen s p \<noteq> col_bit x y r row c p),
            V := (V s)(0xF := (if \<exists>p. col_bit x y r row c p \<and> screen s p then 1 else V s 0xF))\<rparr>)"
  using assms
proof (induction x y r row c s rule: draw_cols.induct)
  case (1 x y r row c s)
  show ?case
  proof (cases "c < 8 \<and> x + c < 64")
    case False
    then have "\<And>p. \<not> col_bit x y r row c p" by (rule col_bit_done)
    then show ?thesis using False by (simp add: draw_cols_exit)
  next
    case True
    define pix where "pix = (y + r) * 64 + x + c"
    have pix: "pix < 2048" using True "1.prems" by (simp add: pix_def)
    have step: "col_bit x y r row c p = ((p = pix \<and> bit row (7 - c)) \<or> col_bit x y r row (c + 1) p)" for p
      unfolding pix_def using True by (intro col_bit_step) simp_all
    have notpix: "\<not> col_bit x y r row (c + 1) pix"
      using pix_div_mod [of x c y r] True by (simp add: col_bit_def pix_def)
    show ?thesis
    proof (cases "bit row (7 - c)")
      case False
      have "draw_cols x y r row (c + 1) s =
         Inr (s\<lparr>screen := (\<lambda>p. screen s p \<noteq> col_bit x y r row (c + 1) p),
            V := (V s)(0xF := (if \<exists>p. col_bit x y r row (c + 1) p \<and> screen s p then 1 else V s 0xF))\<rparr>)"
        using True False "1.prems" by (intro "1.IH"(2)) (simp_all add: pix_def)
      then show ?thesis using True False by (subst draw_cols.simps) (simp add: step)
    next
      case bt: True
      define s1 where "s1 = (if screen s pix then s\<lparr>V := (V s)(0xF := 1)\<rparr> else s)"
      define s2 where "s2 = s1\<lparr>screen := (screen s1)(pix := \<not> screen s1 pix)\<rparr>"
      have t: "bitset_test SCREEN_SIZE (screen s) pix = Inr (screen s pix)"
        using pix by (simp add: bitset_test_def)
      have f: "bitset_flip SCREEN_SIZE (screen s1) pix = Inr ((screen s1)(pix := \<not> screen s1 pix))"
        using pix by (simp add: bitset_flip_def)
      have ih: "draw_cols x y r row (c + 1) s2 =
         Inr (s2\<lparr>screen := (\<lambda>p. screen s2 p \<noteq> col_bit x y r row (c + 1) p),
            V := (V s2)(0xF := (if \<exists>p. col_bit x y r row (c + 1) p \<and> screen s2 p then 1 else V s2 0xF))\<rparr>)"
        unfolding s2_def s1_def
        using "1.prems" by (intro "1.IH"(1) [OF True _ bt t _ f [unfolded s1_def]]) (simp_all add: pix_def)
      have unfold: "draw_cols x y r row c s = draw_cols x y r row (c + 1) s2"
        by (subst draw_cols.simps)
          (simp only: True simp_thms if_True Let_def bt pix_def [symmetric] t sum.case
            s1_def [symmetric] f s2_def [symmetric])
      have scr2: "screen s2 = (screen s)(pix := \<not> screen s pix)"
        by (simp add: s2_def s1_def)
      have ex: "(\<exists>p. col_bit x y r row (c + 1) p \<and> screen s2 p) = (\<exists>p. col_bit x y r row (c + 1) p \<and> screen s p)"
        using notpix by (auto simp add: scr2)
      have scr: "(\<lambda>p. screen s2 p \<noteq> col_bit x y r row (c + 1) p) = (\<lambda>p. screen s p \<noteq> col_bit x y r row c p)"
        using notpix bt by (auto simp add: scr2 step fun_eq_iff)
      have exc: "(\<exists>p. col_bit x y r row c p \<and> screen s p) = (screen s pix \<or> (\<exists>p. col_bit x y r row (c + 1) p \<and> screen s p))"
        using bt by (auto simp add: step)
      have vv: "(V s2)(0xF := (if \<exists>p. col_bit x y r row (c + 1) p \<and> screen s p then 1 else V s2 0xF)) =
          (V s)(0xF := (if screen s pix \<or> (\<exists>p. col_bit x y r row (c + 1) p \<and> screen s p) then 1 else V s 0xF))"
        by (auto simp add: s2_def s1_def)
      have fr: "s2\<lparr>screen := scr, V := v\<rparr> = s\<lparr>screen := scr, V := v\<rparr>" for scr v
        by (simp add: s2_def s1_def)
      show ?thesis
        unfolding unfold ih scr ex exc vv fr ..
    qed
  qed
qed

subsection \<open>The outer loop over the rows\<close>

lemma sprite_from_step:
  assumes "r < n" "y + r < 32"
  shows "sprite_from m a x y n r p =
     (col_bit x y r (m (a + r)) 0 p \<or> sprite_from m a x y n (r + 1) p)"
proof (cases "p div 64 = y + r")
  case True
  then show ?thesis using assms by (simp add: sprite_from_def col_bit_def)
next
  case False
  then show ?thesis by (auto simp add: sprite_from_def col_bit_def)
qed

lemma sprite_from_disj:
  "col_bit x y r row 0 p \<Longrightarrow> \<not> sprite_from m a x y n (r + 1) p"
  by (auto simp add: sprite_from_def col_bit_def)

lemma sprite_from_done:
  "\<not> (r < n \<and> y + r < 32) \<Longrightarrow> \<not> sprite_from m a x y n r p"
  by (auto simp add: sprite_from_def)

lemma draw_rows_exit:
  assumes "\<not> (r < n \<and> y + r < 32)"
  shows "draw_rows x y n r s = Inr s"
  by (subst draw_rows.simps, subst if_not_P [OF assms], rule refl)

lemma draw_rows_eq:
  assumes "\<And>r'. r \<le> r' \<Longrightarrow> r' < n \<Longrightarrow> y + r' < 32 \<Longrightarrow> unat (I s) + r' < 4096"
  shows "draw_rows x y n r s =
     Inr (s\<lparr>screen := (\<lambda>p. screen s p \<noteq> sprite_from (ram s) (unat (I s)) x y n r p),
            V := (V s)(0xF := (if \<exists>p. sprite_from (ram s) (unat (I s)) x y n r p \<and> screen s p
                                then 1 else V s 0xF))\<rparr>)"
  using assms
proof (induction x y n r s rule: draw_rows.induct)
  case (1 x y n r s)
  show ?case
  proof (cases "r < n \<and> y + r < 32")
    case False
    then have "\<And>p. \<not> sprite_from (ram s) (unat (I s)) x y n r p" by (rule sprite_from_done)
    then show ?thesis using False by (simp add: draw_rows_exit)
  next
    case True
    define row where "row = ram s (unat (I s) + r)"
    define s1 where "s1 = s\<lparr>screen := (\<lambda>p. screen s p \<noteq> col_bit x y r row 0 p),
            V := (V s)(0xF := (if \<exists>p. col_bit x y r row 0 p \<and> screen s p then 1 else V s 0xF))\<rparr>"
    have inr: "unat (I s) + r < 4096" using True "1.prems" by simp
    have g: "array_get (ram s) (unat (I s) + r) = Inr row"
      using inr by (simp add: array_get_def row_def)
    have cols: "draw_cols x y r row 0 s = Inr s1"
      using True by (simp add: draw_cols_eq s1_def)
    have same: "ram s1 = ram s" "I s1 = I s" by (simp_all add: s1_def)
    have ih: "draw_rows x y n (r + 1) s1 =
       Inr (s1\<lparr>screen := (\<lambda>p. screen s1 p \<noteq> sprite_from (ram s) (unat (I s)) x y n (r + 1) p),
            V := (V s1)(0xF := (if \<exists>p. sprite_from (ram s) (unat (I s)) x y n (r + 1) p \<and> screen s1 p
                                then 1 else V s1 0xF))\<rparr>)"
    proof -
      have "\<And>r'. r + 1 \<le> r' \<Longrightarrow> r' < n \<Longrightarrow> y + r' < 32 \<Longrightarrow> unat (I s1) + r' < 4096"
        using "1.prems" by (simp add: same)
      from "1.IH" [OF True g cols this] show ?thesis unfolding same .
    qed
    have unfold: "draw_rows x y n r s = draw_rows x y n (r + 1) s1"
      by (subst draw_rows.simps) (simp only: True simp_thms if_True g sum.case cols)
    have step: "sprite_from (ram s) (unat (I s)) x y n r p =
       (col_bit x y r row 0 p \<or> sprite_from (ram s) (unat (I s)) x y n (r + 1) p)" for p
      unfolding row_def using True by (intro sprite_from_step) simp_all
    have disj: "col_bit x y r row 0 p \<Longrightarrow> \<not> sprite_from (ram s) (unat (I s)) x y n (r + 1) p" for p
      by (rule sprite_from_disj)
    have scr: "(\<lambda>p. screen s1 p \<noteq> sprite_from (ram s) (unat (I s)) x y n (r + 1) p) =
        (\<lambda>p. screen s p \<noteq> sprite_from (ram s) (unat (I s)) x y n r p)"
      using disj by (auto simp add: s1_def step fun_eq_iff)
    have ex: "(\<exists>p. sprite_from (ram s) (unat (I s)) x y n (r + 1) p \<and> screen s1 p) =
        (\<exists>p. sprite_from (ram s) (unat (I s)) x y n (r + 1) p \<and> screen s p)"
      using disj by (auto simp add: s1_def)
    have exc: "(\<exists>p. sprite_from (ram s) (unat (I s)) x y n r p \<and> screen s p) =
        ((\<exists>p. col_bit x y r row 0 p \<and> screen s p) \<or>
         (\<exists>p. sprite_from (ram s) (unat (I s)) x y n (r + 1) p \<and> screen s p))"
      by (auto simp add: step)
    have vv: "(V s1)(0xF := (if \<exists>p. sprite_from (ram s) (unat (I s)) x y n (r + 1) p \<and> screen s p
                                then 1 else V s1 0xF)) =
       (V s)(0xF := (if (\<exists>p. col_bit x y r row 0 p \<and> screen s p) \<or>
         (\<exists>p. sprite_from (ram s) (unat (I s)) x y n (r + 1) p \<and> screen s p) then 1 else V s 0xF))"
      by (auto simp add: s1_def)
    have fr: "s1\<lparr>screen := scr, V := v\<rparr> = s\<lparr>screen := scr, V := v\<rparr>" for scr v
      by (simp add: s1_def)
    show ?thesis
      unfolding unfold ih scr ex exc vv fr ..
  qed
qed

lemma draw_cols_frame:
  "y + r < 32 \<Longrightarrow> draw_cols x y r row 0 s = Inr s1 \<Longrightarrow> ram s1 = ram s \<and> I s1 = I s"
  by (simp add: draw_cols_eq) auto

lemma draw_rows_fail:
  assumes "r \<le> r'" "r' < n" "y + r' < 32" "\<not> unat (I s) + r' < 4096"
  shows "draw_rows x y n r s = Inl Undefined_behaviour"
  using assms
proof (induction x y n r s rule: draw_rows.induct)
  case (1 x y n r s)
  have True: "r < n \<and> y + r < 32" using "1.prems" by simp
  show ?case
  proof (cases "unat (I s) + r < 4096")
    case False
    then have g: "array_get (ram s) (unat (I s) + r) = Inl Undefined_behaviour"
      by (simp add: array_get_def)
    show ?thesis
      by (subst draw_rows.simps) (simp only: True simp_thms if_True g sum.case)
  next
    case inr: True
    then have ne: "r \<noteq> r'" using "1.prems" by auto
    define row where "row = ram s (unat (I s) + r)"
    obtain s1 where cols: "draw_cols x y r row 0 s = Inr s1"
      using True by (simp add: draw_cols_eq)
    have same: "ram s1 = ram s" "I s1 = I s"
      using draw_cols_frame [OF _ cols] True by simp_all
    have g: "array_get (ram s) (unat (I s) + r) = Inr row"
      using inr by (simp add: array_get_def row_def)
    have "draw_rows x y n (r + 1) s1 = Inl Undefined_behaviour"
    proof (rule "1.IH" [OF True g cols])
      show "r + 1 \<le> r'" using "1.prems" ne by simp
      show "r' < n" "y + r' < 32" using "1.prems" by simp_all
      show "\<not> unat (I s1) + r' < 4096" using "1.prems" by (simp add: same)
    qed
    then show ?thesis
      by (subst draw_rows.simps) (simp only: True simp_thms if_True g sum.case cols)
  qed
qed

subsection \<open>The handler\<close>

lemma handle_D_eq:
  assumes "rows_in_memory s instr"
  shows "handle_D_instr instr s =
     Inr (s\<lparr>screen := (\<lambda>p. screen s p \<noteq> sprite_at s instr p),
            V := (V s)(0xF := (if \<exists>p. sprite_at s instr p \<and> screen s p then 1 else 0))\<rparr>)"
proof -
  define s0 where "s0 = s\<lparr>V := (V s)(0xF := 0)\<rparr>"
  define x where "x = unat (V s (X instr) mod 64)"
  define y where "y = unat (V s (Y instr) mod 32)"
  define n where "n = unat (N instr)"
  have rng: "\<And>r'. 0 \<le> r' \<Longrightarrow> r' < n \<Longrightarrow> y + r' < 32 \<Longrightarrow> unat (I s0) + r' < 4096"
    using assms by (auto simp add: rows_in_memory_def Let_def s0_def y_def n_def min_def split: if_splits)
  have "handle_D_instr instr s = draw_rows x y n 0 s0"
    by (simp add: handle_D_instr_def Let_def s0_def x_def y_def n_def)
  also have "\<dots> = Inr (s0\<lparr>screen := (\<lambda>p. screen s0 p \<noteq> sprite_from (ram s0) (unat (I s0)) x y n 0 p),
            V := (V s0)(0xF := (if \<exists>p. sprite_from (ram s0) (unat (I s0)) x y n 0 p \<and> screen s0 p
                                then 1 else V s0 0xF))\<rparr>)"
    using rng by (rule draw_rows_eq)
  also have "\<dots> = Inr (s\<lparr>screen := (\<lambda>p. screen s p \<noteq> sprite_at s instr p),
            V := (V s)(0xF := (if \<exists>p. sprite_at s instr p \<and> screen s p then 1 else 0))\<rparr>)"
    by (auto simp add: s0_def sprite_at_def x_def y_def n_def)
  finally show ?thesis .
qed

lemma handle_D_fail:
  assumes "\<not> rows_in_memory s instr"
  shows "handle_D_instr instr s = Inl Undefined_behaviour"
proof -
  define s0 where "s0 = s\<lparr>V := (V s)(0xF := 0)\<rparr>"
  define x where "x = unat (V s (X instr) mod 64)"
  define y where "y = unat (V s (Y instr) mod 32)"
  define n where "n = unat (N instr)"
  define r' where "r' = min n (32 - y) - 1"
  have a: "min n (32 - y) \<noteq> 0" "\<not> unat (I s) + min n (32 - y) \<le> 4096"
    using assms by (simp_all add: rows_in_memory_def Let_def y_def n_def)
  have "handle_D_instr instr s = draw_rows x y n 0 s0"
    by (simp add: handle_D_instr_def Let_def s0_def x_def y_def n_def)
  also have "\<dots> = Inl Undefined_behaviour"
  proof (rule draw_rows_fail [where r' = r'])
    show "0 \<le> r'" by simp
    show "r' < n" using a by (simp add: r'_def min_def split: if_splits)
    show "y + r' < 32" using a by (simp add: r'_def min_def split: if_splits)
    show "\<not> unat (I s0) + r' < 4096" using a by (simp add: r'_def s0_def min_def split: if_splits)
  qed
  finally show ?thesis .
qed

lemma sprite_from_iff:
  "sprite_from m a x y n 0 p \<longleftrightarrow>
     (\<exists>r c. r < n \<and> y + r < 32 \<and> c < 8 \<and> x + c < 64 \<and> p = (y + r) * 64 + x + c \<and>
            bit (m (a + r)) (7 - c))"
proof
  assume h: "sprite_from m a x y n 0 p"
  define r where "r = p div 64 - y"
  define c where "c = p mod 64 - x"
  have "p mod 64 < 64" by simp
  then have "r < n \<and> y + r < 32 \<and> c < 8 \<and> x + c < 64 \<and> y + r = p div 64 \<and> x + c = p mod 64 \<and>
            bit (m (a + r)) (7 - c)"
    using h by (auto simp add: sprite_from_def r_def c_def)
  moreover have "p = (p div 64) * 64 + p mod 64" by simp
  ultimately have "r < n \<and> y + r < 32 \<and> c < 8 \<and> x + c < 64 \<and> p = (y + r) * 64 + x + c \<and>
            bit (m (a + r)) (7 - c)"
    by (simp add: add.assoc)
  then show "\<exists>r c. r < n \<and> y + r < 32 \<and> c < 8 \<and> x + c < 64 \<and> p = (y + r) * 64 + x + c \<and>
            bit (m (a + r)) (7 - c)" by blast
next
  assume "\<exists>r c. r < n \<and> y + r < 32 \<and> c < 8 \<and> x + c < 64 \<and> p = (y + r) * 64 + x + c \<and>
            bit (m (a + r)) (7 - c)"
  then obtain r c where rc: "r < n" "y + r < 32" "c < 8" "x + c < 64" "p = (y + r) * 64 + x + c"
            "bit (m (a + r)) (7 - c)" by blast
  have dm: "p div 64 = y + r \<and> p mod 64 = x + c"
    using pix_div_mod [OF rc(4), of y r] rc(5) by simp
  show "sprite_from m a x y n 0 p"
    unfolding sprite_from_def using rc(1-4,6) by (simp add: dm)
qed

lemma sprite_at_box:
  assumes "sprite_at s instr p"
  shows "unat (V s (X instr) mod 64) \<le> p mod 64 \<and>
         p mod 64 \<le> min (unat (V s (X instr) mod 64) + 7) 63 \<and>
         unat (V s (Y instr) mod 32) \<le> p div 64 \<and>
         p div 64 < min (unat (V s (Y instr) mod 32) + unat (N instr)) 32"
proof -
  have "p mod 64 < 64" by simp
  then show ?thesis using assms by (auto simp add: sprite_at_def sprite_from_def)
qed

text \<open>
  Claim C9. A draw whose sprite rows lie inside the memory completes, and for every draw
  that completes, with origin \<open>x = V[X] mod 64\<close> and \<open>y = V[Y] mod 32\<close>: a pixel of the
  display that changed lies at a column from \<open>x\<close> to \<open>min (x + 7) 63\<close> and in a row from
  \<open>y\<close> to \<open>min (y + N) 32 - 1\<close>, every other pixel is unchanged, and \<open>VF\<close> is 1 exactly
  when a set sprite bit inside the grid (\<open>y + r < 32\<close>, \<open>x + c < 64\<close>) falls on a lit
  pixel, 0 otherwise: the bits outside the grid have no part in it.
\<close>

theorem draw_is_clipped_to_the_grid:
  "(rows_in_memory s instr \<longrightarrow> (\<exists>s'. handle_D_instr instr s = Inr s')) \<and>
   (\<forall>s'. handle_D_instr instr s = Inr s' \<longrightarrow>
      (\<forall>p. screen s' p \<noteq> screen s p \<longrightarrow>
         unat (V s (X instr) mod 64) \<le> p mod 64 \<and>
         p mod 64 \<le> min (unat (V s (X instr) mod 64) + 7) 63 \<and>
         unat (V s (Y instr) mod 32) \<le> p div 64 \<and>
         p div 64 < min (unat (V s (Y instr) mod 32) + unat (N instr)) 32) \<and>
      V s' 0xF =
        (if \<exists>r c. r < unat (N instr) \<and> unat (V s (Y instr) mod 32) + r < 32 \<and>
                  c < 8 \<and> unat (V s (X instr) mod 64) + c < 64 \<and>
                  bit (ram s (unat (I s) + r)) (7 - c) \<and>
                  screen s ((unat (V s (Y instr) mod 32) + r) * 64 +
                            unat (V s (X instr) mod 64) + c)
         then 1 else 0))"
proof -
  have a: "\<exists>s'. handle_D_instr instr s = Inr s'" if "rows_in_memory s instr"
    using that by (simp add: handle_D_eq)
  have b: "unat (V s (X instr) mod 64) \<le> p mod 64 \<and>
         p mod 64 \<le> min (unat (V s (X instr) mod 64) + 7) 63 \<and>
         unat (V s (Y instr) mod 32) \<le> p div 64 \<and>
         p div 64 < min (unat (V s (Y instr) mod 32) + unat (N instr)) 32"
    if r: "handle_D_instr instr s = Inr s'" and ch: "screen s' p \<noteq> screen s p" for s' p
  proof -
    have m: "rows_in_memory s instr"
      using r handle_D_fail [of s instr] by auto
    have "sprite_at s instr p" using r ch by (auto simp add: handle_D_eq [OF m])
    then show ?thesis by (rule sprite_at_box)
  qed
  have c: "V s' 0xF =
        (if \<exists>r c. r < unat (N instr) \<and> unat (V s (Y instr) mod 32) + r < 32 \<and>
                  c < 8 \<and> unat (V s (X instr) mod 64) + c < 64 \<and>
                  bit (ram s (unat (I s) + r)) (7 - c) \<and>
                  screen s ((unat (V s (Y instr) mod 32) + r) * 64 +
                            unat (V s (X instr) mod 64) + c)
         then 1 else 0)"
    if r: "handle_D_instr instr s = Inr s'" for s'
  proof -
    have m: "rows_in_memory s instr"
      using r handle_D_fail [of s instr] by auto
    have vf: "V s' 0xF = (if \<exists>p. sprite_at s instr p \<and> screen s p then 1 else 0)"
      using r by (auto simp add: handle_D_eq [OF m])
    have "(\<exists>p. sprite_at s instr p \<and> screen s p) \<longleftrightarrow>
      (\<exists>r c. r < unat (N instr) \<and> unat (V s (Y instr) mod 32) + r < 32 \<and>
                  c < 8 \<and> unat (V s (X instr) mod 64) + c < 64 \<and>
                  bit (ram s (unat (I s) + r)) (7 - c) \<and>
                  screen s ((unat (V s (Y instr) mod 32) + r) * 64 +
                            unat (V s (X instr) mod 64) + c))"
      unfolding sprite_at_def sprite_from_iff by blast
    then show ?thesis using vf by simp
  qed
  show ?thesis
  proof (rule conjI)
    show "rows_in_memory s instr \<longrightarrow> (\<exists>s'. handle_D_instr instr s = Inr s')"
      using a by blast
  next
    show "\<forall>s'. handle_D_instr instr s = Inr s' \<longrightarrow>
      (\<forall>p. screen s' p \<noteq> screen s p \<longrightarrow>
         unat (V s (X instr) mod 64) \<le> p mod 64 \<and>
         p mod 64 \<le> min (unat (V s (X instr) mod 64) + 7) 63 \<and>
         unat (V s (Y instr) mod 32) \<le> p div 64 \<and>
         p div 64 < min (unat (V s (Y instr) mod 32) + unat (N instr)) 32) \<and>
      V s' 0xF =
        (if \<exists>r c. r < unat (N instr) \<and> unat (V s (Y instr) mod 32) + r < 32 \<and>
                  c < 8 \<and> unat (V s (X instr) mod 64) + c < 64 \<and>
                  bit (ram s (unat (I s) + r)) (7 - c) \<and>
                  screen s ((unat (V s (Y instr) mod 32) + r) * 64 +
                            unat (V s (X instr) mod 64) + c)
         then 1 else 0)"
    proof (rule allI, rule impI, rule conjI)
      fix s' assume r: "handle_D_instr instr s = Inr s'"
      show "\<forall>p. screen s' p \<noteq> screen s p \<longrightarrow>
         unat (V s (X instr) mod 64) \<le> p mod 64 \<and>
         p mod 64 \<le> min (unat (V s (X instr) mod 64) + 7) 63 \<and>
         unat (V s (Y instr) mod 32) \<le> p div 64 \<and>
         p div 64 < min (unat (V s (Y instr) mod 32) + unat (N instr)) 32"
        using b [OF r] by blast
      show "V s' 0xF =
        (if \<exists>r c. r < unat (N instr) \<and> unat (V s (Y instr) mod 32) + r < 32 \<and>
                  c < 8 \<and> unat (V s (X instr) mod 64) + c < 64 \<and>
                  bit (ram s (unat (I s) + r)) (7 - c) \<and>
                  screen s ((unat (V s (Y instr) mod 32) + r) * 64 +
                            unat (V s (X instr) mod 64) + c)
         then 1 else 0)"
        using r by (rule c)
    qed
  qed
qed

text \<open>
  The theorem on the sprite of the claim: origin \<open>(60, 30)\<close> and height 4 (\<^verbatim>\<open>D014\<close>
  with \<open>V0 = 60\<close>, \<open>V1 = 30\<close>, \<open>I = 0\<close>) on an empty display. The pixels at row 0 column 0,
  row 0 column 60, row 30 column 0 and row 31 column 0, where a wrapped sprite would
  land, stay dark, and \<open>VF\<close> is 0.
\<close>

theorem draw_is_clipped_to_the_grid_witness:
  "rows_in_memory (Chip8_new 0 ((\<lambda>_. 0)(0 := 60, 1 := 30))) (instruction_t_ctor 0xD014) \<and>
   (\<exists>s'. handle_D_instr (instruction_t_ctor 0xD014) (Chip8_new 0 ((\<lambda>_. 0)(0 := 60, 1 := 30))) = Inr s' \<and>
         screen s' 0 = False \<and> screen s' 60 = False \<and> screen s' 1920 = False \<and>
         screen s' 1984 = False \<and> V s' 0xF = 0)"
proof -
  let ?s = "Chip8_new 0 ((\<lambda>_. 0)(0 := 60, 1 := 30))"
  let ?i = "instruction_t_ctor 0xD014"
  have m: "rows_in_memory ?s ?i"
    by (simp add: rows_in_memory_def instruction_t_ctor_def Chip8_new_def)
  have x: "unat (V ?s (X ?i) mod 64) = 60" "unat (V ?s (Y ?i) mod 32) = 30"
    by (simp_all add: instruction_t_ctor_def Chip8_new_def)
  have scr: "screen ?s p = False" for p by (simp add: Chip8_new_def)
  note t = draw_is_clipped_to_the_grid [of ?s ?i]
  from t m obtain s' where r: "handle_D_instr ?i ?s = Inr s'" by blast
  from t r have fr: "screen s' p \<noteq> screen ?s p \<Longrightarrow>
         unat (V ?s (X ?i) mod 64) \<le> p mod 64 \<and>
         p mod 64 \<le> min (unat (V ?s (X ?i) mod 64) + 7) 63 \<and>
         unat (V ?s (Y ?i) mod 32) \<le> p div 64 \<and>
         p div 64 < min (unat (V ?s (Y ?i) mod 32) + unat (N ?i)) 32" for p
    by blast
  from t r have vf: "V s' 0xF =
        (if \<exists>r c. r < unat (N ?i) \<and> unat (V ?s (Y ?i) mod 32) + r < 32 \<and>
                  c < 8 \<and> unat (V ?s (X ?i) mod 64) + c < 64 \<and>
                  bit (ram ?s (unat (I ?s) + r)) (7 - c) \<and>
                  screen ?s ((unat (V ?s (Y ?i) mod 32) + r) * 64 +
                            unat (V ?s (X ?i) mod 64) + c)
         then 1 else 0)"
    by blast
  have p0: "screen s' 0 = False" using fr [of 0] by (auto simp add: x scr)
  have p60: "screen s' 60 = False" using fr [of 60] by (auto simp add: x scr)
  have p1920: "screen s' 1920 = False" using fr [of 1920] by (auto simp add: x scr)
  have p1984: "screen s' 1984 = False" using fr [of 1984] by (auto simp add: x scr)
  have v: "V s' 0xF = 0" unfolding vf by (simp add: scr)
  show ?thesis using m r p0 p60 p1920 p1984 v by blast
qed

text \<open>
  Claim C8. With \<open>X\<close> and \<open>Y\<close> other than \<open>0xF\<close> and the \<open>N\<close> sprite bytes at \<open>I\<close>
  inside the memory, drawing the same sprite twice completes both times and ends with
  the display it started from; and when the first draw lit at least one pixel, the
  second draw ends with \<open>VF = 1\<close>.
\<close>

theorem draw_twice_restores_screen:
  assumes "X instr \<noteq> 0xF" and "Y instr \<noteq> 0xF"
    and "unat (I s) + unat (N instr) \<le> 4096"
  shows "\<exists>s1 s2. handle_D_instr instr s = Inr s1 \<and> handle_D_instr instr s1 = Inr s2 \<and>
           screen s2 = screen s \<and>
           ((\<exists>p. screen s1 p \<and> \<not> screen s p) \<longrightarrow> V s2 0xF = 1)"
proof -
  define s1 where "s1 = s\<lparr>screen := (\<lambda>p. screen s p \<noteq> sprite_at s instr p),
            V := (V s)(0xF := (if \<exists>p. sprite_at s instr p \<and> screen s p then 1 else 0))\<rparr>"
  define s2 where "s2 = s1\<lparr>screen := (\<lambda>p. screen s1 p \<noteq> sprite_at s1 instr p),
            V := (V s1)(0xF := (if \<exists>p. sprite_at s1 instr p \<and> screen s1 p then 1 else 0))\<rparr>"
  have m: "rows_in_memory s instr"
    using assms(3) by (auto simp add: rows_in_memory_def Let_def min_def)
  have vx: "V s1 (X instr) = V s (X instr)" "V s1 (Y instr) = V s (Y instr)"
    using assms(1,2) by (simp_all add: s1_def)
  have same: "ram s1 = ram s" "I s1 = I s" by (simp_all add: s1_def)
  have m1: "rows_in_memory s1 instr"
    using m by (simp add: rows_in_memory_def vx same)
  have sp: "sprite_at s1 instr = sprite_at s instr"
    by (simp add: sprite_at_def fun_eq_iff vx same)
  have d1: "handle_D_instr instr s = Inr s1" unfolding s1_def using m by (rule handle_D_eq)
  have d2: "handle_D_instr instr s1 = Inr s2" unfolding s2_def using m1 by (rule handle_D_eq)
  have scr2: "screen s2 = (\<lambda>p. screen s1 p \<noteq> sprite_at s instr p)"
    by (simp add: s2_def sp)
  have scr1: "screen s1 = (\<lambda>p. screen s p \<noteq> sprite_at s instr p)"
    by (simp add: s1_def)
  have scr: "screen s2 = screen s"
    unfolding scr2 scr1 by auto
  have vf: "V s2 0xF = 1" if "\<exists>p. screen s1 p \<and> \<not> screen s p"
  proof -
    from that obtain p where p: "screen s1 p" "\<not> screen s p" by blast
    then have "sprite_at s instr p" by (simp add: scr1)
    then have "\<exists>p. sprite_at s1 instr p \<and> screen s1 p" using p sp by auto
    then show ?thesis unfolding s2_def by simp
  qed
  show ?thesis using d1 d2 scr vf by blast
qed

text \<open>
  The theorem on \<^verbatim>\<open>D015\<close> with \<open>V0 = 60\<close>, \<open>V1 = 30\<close>, \<open>I = 0\<close> on an empty display: the
  first draw lights the pixel at row 30, column 60, the second draw restores the empty
  display and ends with \<open>VF = 1\<close>.
\<close>

theorem draw_twice_restores_screen_witness:
  "X (instruction_t_ctor 0xD015) \<noteq> 0xF \<and> Y (instruction_t_ctor 0xD015) \<noteq> 0xF \<and>
   unat (I (Chip8_new 0 ((\<lambda>_. 0)(0 := 60, 1 := 30)))) + unat (N (instruction_t_ctor 0xD015)) \<le> 4096 \<and>
   (\<exists>s1 s2. handle_D_instr (instruction_t_ctor 0xD015) (Chip8_new 0 ((\<lambda>_. 0)(0 := 60, 1 := 30))) = Inr s1 \<and>
        handle_D_instr (instruction_t_ctor 0xD015) s1 = Inr s2 \<and>
        screen s2 = screen (Chip8_new 0 ((\<lambda>_. 0)(0 := 60, 1 := 30))) \<and>
        screen s1 1980 \<and> V s2 0xF = 1)"
proof -
  let ?s = "Chip8_new 0 ((\<lambda>_. 0)(0 := 60, 1 := 30))"
  let ?i = "instruction_t_ctor 0xD015"
  have h: "X ?i \<noteq> 0xF" "Y ?i \<noteq> 0xF" "unat (I ?s) + unat (N ?i) \<le> 4096"
    by (simp_all add: instruction_t_ctor_def Chip8_new_def)
  have m: "rows_in_memory ?s ?i"
    by (simp add: rows_in_memory_def instruction_t_ctor_def Chip8_new_def)
  from draw_twice_restores_screen [OF h] obtain s1 s2 where
    d: "handle_D_instr ?i ?s = Inr s1" "handle_D_instr ?i s1 = Inr s2" "screen s2 = screen ?s"
      "(\<exists>p. screen s1 p \<and> \<not> screen ?s p) \<longrightarrow> V s2 0xF = 1"
    by blast
  have sp: "sprite_at ?s ?i 1980"
    by (simp add: sprite_at_def sprite_from_def instruction_t_ctor_def Chip8_new_def font_def)
  have "screen s1 1980 = (screen ?s 1980 \<noteq> sprite_at ?s ?i 1980)"
    using d(1) unfolding handle_D_eq [OF m] by auto
  then have lit: "screen s1 1980" using sp by (simp add: Chip8_new_def)
  have "\<not> screen ?s 1980" by (simp add: Chip8_new_def)
  then have "V s2 0xF = 1" using d(4) lit by blast
  then show ?thesis using h d lit by blast
qed

section \<open>Memory accesses through the index register\<close>

lemma store_regs_exit:
  assumes "\<not> i \<le> x"
  shows "store_regs x i s = Inr s"
  by (subst store_regs.simps, subst if_not_P [OF assms], rule refl)

lemma store_regs_fail:
  "i \<le> x \<Longrightarrow> \<not> unat (I s) + x < 4096 \<Longrightarrow> store_regs x i s = Inl Undefined_behaviour"
proof (induction x i s rule: store_regs.induct)
  case (1 x i s)
  have True: "i \<le> x" using "1.prems" by simp
  show ?case
  proof (cases "unat (I s) + i < 4096")
    case False
    then have w: "array_set (ram s) (unat (I s) + i) (V s (of_nat i)) = Inl Undefined_behaviour"
      by (simp add: array_set_def)
    show ?thesis
      by (subst store_regs.simps) (simp only: True if_True w sum.case)
  next
    case inr: True
    define m where "m = (ram s)(unat (I s) + i := V s (of_nat i))"
    have w: "array_set (ram s) (unat (I s) + i) (V s (of_nat i)) = Inr m"
      using inr by (simp add: array_set_def m_def)
    have "store_regs x (i + 1) (s\<lparr>ram := m\<rparr>) = Inl Undefined_behaviour"
      using "1.prems" inr by (intro "1.IH" [OF True w]) auto
    then show ?thesis
      by (subst store_regs.simps) (simp only: True if_True w sum.case)
  qed
qed

lemma load_regs_exit:
  assumes "\<not> i \<le> x"
  shows "load_regs x i s = Inr s"
  by (subst load_regs.simps, subst if_not_P [OF assms], rule refl)

lemma load_regs_fail:
  "i \<le> x \<Longrightarrow> \<not> unat (I s) + x < 4096 \<Longrightarrow> load_regs x i s = Inl Undefined_behaviour"
proof (induction x i s rule: load_regs.induct)
  case (1 x i s)
  have True: "i \<le> x" using "1.prems" by simp
  show ?case
  proof (cases "unat (I s) + i < 4096")
    case False
    then have g: "array_get (ram s) (unat (I s) + i) = Inl Undefined_behaviour"
      by (simp add: array_get_def)
    show ?thesis
      by (subst load_regs.simps) (simp only: True if_True g sum.case)
  next
    case inr: True
    define b where "b = ram s (unat (I s) + i)"
    have g: "array_get (ram s) (unat (I s) + i) = Inr b"
      using inr by (simp add: array_get_def b_def)
    have "load_regs x (i + 1) (s\<lparr>V := (V s)(of_nat i := b)\<rparr>) = Inl Undefined_behaviour"
      using "1.prems" inr by (intro "1.IH" [OF True g]) auto
    then show ?thesis
      by (subst load_regs.simps) (simp only: True if_True g sum.case)
  qed
qed

text \<open>
  What the two register loops leave behind when every address they use lies inside the
  memory: \<open>store_regs\<close> has copied \<open>V[i..x]\<close> to \<open>ram[I + i .. I + x]\<close>, \<open>load_regs\<close> has
  copied those bytes to the registers; nothing else has changed.
\<close>

lemma store_regs_eq:
  "unat (I s) + x < 4096 \<Longrightarrow>
   store_regs x i s =
     Inr (s\<lparr>ram := (\<lambda>a. if unat (I s) + i \<le> a \<and> a \<le> unat (I s) + x
                         then V s (of_nat (a - unat (I s))) else ram s a)\<rparr>)"
proof (induction x i s rule: store_regs.induct)
  case (1 x i s)
  show ?case
  proof (cases "i \<le> x")
    case False
    then have "(\<lambda>a. if unat (I s) + i \<le> a \<and> a \<le> unat (I s) + x
                         then V s (of_nat (a - unat (I s))) else ram s a) = ram s"
      by (auto simp add: fun_eq_iff)
    then show ?thesis using False by (simp add: store_regs_exit)
  next
    case True
    define m where "m = (ram s)(unat (I s) + i := V s (of_nat i))"
    have w: "array_set (ram s) (unat (I s) + i) (V s (of_nat i)) = Inr m"
      using True "1.prems" by (simp add: array_set_def m_def)
    have ih: "store_regs x (i + 1) (s\<lparr>ram := m\<rparr>) =
       Inr (s\<lparr>ram := m\<rparr>\<lparr>ram := (\<lambda>a. if unat (I s) + (i + 1) \<le> a \<and> a \<le> unat (I s) + x
                         then V s (of_nat (a - unat (I s))) else m a)\<rparr>)"
      using "1.IH" [OF True w] "1.prems" by (simp cong: if_cong)
    have eq: "(\<lambda>a. if unat (I s) + (i + 1) \<le> a \<and> a \<le> unat (I s) + x
                         then V s (of_nat (a - unat (I s))) else m a) =
          (\<lambda>a. if unat (I s) + i \<le> a \<and> a \<le> unat (I s) + x
                         then V s (of_nat (a - unat (I s))) else ram s a)"
      using True by (auto simp add: fun_eq_iff m_def)
    have unfold: "store_regs x i s = store_regs x (i + 1) (s\<lparr>ram := m\<rparr>)"
      by (subst store_regs.simps) (simp only: True if_True w sum.case)
    show ?thesis unfolding unfold ih eq by simp
  qed
qed

lemma unat_of_nat_reg: "i < 16 \<Longrightarrow> unat (of_nat i :: 4 word) = i"
  by (simp add: unat_of_nat)

lemma load_regs_eq:
  "unat (I s) + x < 4096 \<Longrightarrow> x < 16 \<Longrightarrow>
   load_regs x i s =
     Inr (s\<lparr>V := (\<lambda>k. if i \<le> unat k \<and> unat k \<le> x
                       then ram s (unat (I s) + unat k) else V s k)\<rparr>)"
proof (induction x i s rule: load_regs.induct)
  case (1 x i s)
  show ?case
  proof (cases "i \<le> x")
    case False
    then have "(\<lambda>k. if i \<le> unat k \<and> unat k \<le> x
                       then ram s (unat (I s) + unat k) else V s k) = V s"
      by (auto simp add: fun_eq_iff)
    then show ?thesis using False by (simp add: load_regs_exit)
  next
    case True
    define b where "b = ram s (unat (I s) + i)"
    define v1 where "v1 = (V s)(of_nat i := b)"
    have i16: "i < 16" using True "1.prems" by simp
    have ui: "unat (of_nat i :: 4 word) = i" using i16 by (rule unat_of_nat_reg)
    have g: "array_get (ram s) (unat (I s) + i) = Inr b"
      using True "1.prems" by (simp add: array_get_def b_def)
    have ih: "load_regs x (i + 1) (s\<lparr>V := v1\<rparr>) =
       Inr (s\<lparr>V := v1\<rparr>\<lparr>V := (\<lambda>k. if i + 1 \<le> unat k \<and> unat k \<le> x
                       then ram s (unat (I s) + unat k) else v1 k)\<rparr>)"
      using "1.IH" [OF True g] "1.prems" by (simp add: v1_def cong: if_cong)
    have eq: "(\<lambda>k. if i + 1 \<le> unat k \<and> unat k \<le> x
                       then ram s (unat (I s) + unat k) else v1 k) =
          (\<lambda>k. if i \<le> unat k \<and> unat k \<le> x
                       then ram s (unat (I s) + unat k) else V s k)"
    proof
      fix k :: "4 word"
      show "(if i + 1 \<le> unat k \<and> unat k \<le> x
                       then ram s (unat (I s) + unat k) else v1 k) =
          (if i \<le> unat k \<and> unat k \<le> x
                       then ram s (unat (I s) + unat k) else V s k)"
      proof (cases "k = of_nat i")
        case True
        then show ?thesis using \<open>i \<le> x\<close> by (simp add: ui v1_def b_def)
      next
        case False
        then have "unat k \<noteq> i" by auto
        then show ?thesis using False by (auto simp add: v1_def)
      qed
    qed
    have unfold: "load_regs x i s = load_regs x (i + 1) (s\<lparr>V := v1\<rparr>)"
      by (subst load_regs.simps) (simp only: True if_True g sum.case v1_def)
    show ?thesis unfolding unfold ih eq by simp
  qed
qed

lemma FX33_effect:
  assumes "NN instr = 0x33"
  shows "if unat (I s) + 2 < 4096
         then handle_F_instr instr s =
           Inr (s\<lparr>ram := (ram s)
                  (unat (I s) + 2 := V s (X instr) mod 10,
                   unat (I s) + 1 := (V s (X instr) div 10) mod 10,
                   unat (I s) := (V s (X instr) div 100) mod 10)\<rparr>)
         else handle_F_instr instr s = Inl Undefined_behaviour"
  using assms by (simp add: handle_F_instr_def array_set_def Let_def)

lemma FX55_effect:
  assumes "NN instr = 0x55"
  shows "if unat (I s) + unat (X instr) < 4096
         then handle_F_instr instr s =
           Inr (s\<lparr>ram := (\<lambda>a. if unat (I s) \<le> a \<and> a \<le> unat (I s) + unat (X instr)
                               then V s (of_nat (a - unat (I s))) else ram s a),
                  I := (if FX55_FX65_modify_I s then I s + ucast (X instr) + 1 else I s)\<rparr>)
         else handle_F_instr instr s = Inl Undefined_behaviour"
proof (cases "unat (I s) + unat (X instr) < 4096")
  case True
  have "store_regs (unat (X instr)) 0 s =
     Inr (s\<lparr>ram := (\<lambda>a. if unat (I s) + 0 \<le> a \<and> a \<le> unat (I s) + unat (X instr)
                         then V s (of_nat (a - unat (I s))) else ram s a)\<rparr>)"
    using True by (rule store_regs_eq)
  then show ?thesis using assms True by (simp add: handle_F_instr_def Let_def)
next
  case False
  then have "store_regs (unat (X instr)) 0 s = Inl Undefined_behaviour"
    by (intro store_regs_fail) simp_all
  then show ?thesis using assms False by (simp add: handle_F_instr_def)
qed

lemma FX65_effect:
  assumes "NN instr = 0x65"
  shows "if unat (I s) + unat (X instr) < 4096
         then handle_F_instr instr s =
           Inr (s\<lparr>V := (\<lambda>k. if unat k \<le> unat (X instr)
                             then ram s (unat (I s) + unat k) else V s k),
                  I := (if FX55_FX65_modify_I s then I s + ucast (X instr) + 1 else I s)\<rparr>)
         else handle_F_instr instr s = Inl Undefined_behaviour"
proof (cases "unat (I s) + unat (X instr) < 4096")
  case True
  have x16: "unat (X instr) < 16" using unsigned_less [of "X instr", where ?'a = nat] by simp
  have "load_regs (unat (X instr)) 0 s =
     Inr (s\<lparr>V := (\<lambda>k. if 0 \<le> unat k \<and> unat k \<le> unat (X instr)
                       then ram s (unat (I s) + unat k) else V s k)\<rparr>)"
    using True x16 by (rule load_regs_eq)
  then show ?thesis using assms True by (simp add: handle_F_instr_def Let_def)
next
  case False
  then have "load_regs (unat (X instr)) 0 s = Inl Undefined_behaviour"
    by (intro load_regs_fail) simp_all
  then show ?thesis using assms False by (simp add: handle_F_instr_def)
qed

lemma DXYN_effect:
  "if rows_in_memory s instr
   then handle_D_instr instr s =
     Inr (s\<lparr>screen := (\<lambda>p. screen s p \<noteq> sprite_at s instr p),
            V := (V s)(0xF := (if \<exists>p. sprite_at s instr p \<and> screen s p then 1 else 0))\<rparr>)
   else handle_D_instr instr s = Inl Undefined_behaviour"
  by (simp add: handle_D_eq handle_D_fail)

text \<open>
  Claim C6, as stated: for every value of \<open>I\<close> each access of these handlers stays inside
  the memory. The step on \<^verbatim>\<open>F033\<close> with \<open>I = 0xFFE\<close> writes \<^verbatim>\<open>ram[I + 2]\<close>, that is
  \<^verbatim>\<open>ram[4096]\<close>, outside the array.
\<close>

theorem FX33_at_0xFFE_leaves_memory:
  "cpu_next_instr 0 (booted [0xF0, 0x33] 0xFFE (\<lambda>_. 0)) = Inl Undefined_behaviour"
  by (simp add: cpu_next_instr_def booted_def load_def Chip8_new_def array_get_def
      instruction_t_ctor_def handle_F_instr_def array_set_def Let_def)

text \<open>
  Claim C6, amended: each memory-touching opcode completes, with its effect, exactly
  when every address it accesses is below 4096, and has undefined behaviour otherwise
  (no handler masks \<open>I\<close>):
  \<^item> \<^verbatim>\<open>FX33\<close>, when \<open>I + 2 < 4096\<close>, stores the units, tens and hundreds digit of \<open>V[X]\<close>
    at \<open>I + 2\<close>, \<open>I + 1\<close> and \<open>I\<close>;
  \<^item> \<^verbatim>\<open>FX55\<close>, when \<open>I + X < 4096\<close>, stores \<open>V[0..X]\<close> at \<open>I .. I + X\<close>, and \<^verbatim>\<open>FX65\<close>
    loads \<open>V[0..X]\<close> from there; both then add \<open>X + 1\<close> to \<open>I\<close> when the switch
    \<open>FX55_FX65_modify_I\<close> is on;
  \<^item> \<^verbatim>\<open>DXYN\<close>, when the sprite rows it reads lie inside the memory, flips the display
    pixels under the set sprite bits inside the grid and sets \<open>VF\<close> to 1 when one of them
    was lit, to 0 otherwise.
  In each case nothing else in the machine changes.
\<close>

theorem memory_access_completes_iff_in_range:
  "(NN instr = 0x33 \<longrightarrow>
      (if unat (I s) + 2 < 4096
       then handle_F_instr instr s =
           Inr (s\<lparr>ram := (ram s)
                  (unat (I s) + 2 := V s (X instr) mod 10,
                   unat (I s) + 1 := (V s (X instr) div 10) mod 10,
                   unat (I s) := (V s (X instr) div 100) mod 10)\<rparr>)
       else handle_F_instr instr s = Inl Undefined_behaviour)) \<and>
   (NN instr = 0x55 \<longrightarrow>
      (if unat (I s) + unat (X instr) < 4096
       then handle_F_instr instr s =
           Inr (s\<lparr>ram := (\<lambda>a. if unat (I s) \<le> a \<and> a \<le> unat (I s) + unat (X instr)
                               then V s (of_nat (a - unat (I s))) else ram s a),
                  I := (if FX55_FX65_modify_I s then I s + ucast (X instr) + 1 else I s)\<rparr>)
       else handle_F_instr instr s = Inl Undefined_behaviour)) \<and>
   (NN instr = 0x65 \<longrightarrow>
      (if unat (I s) + unat (X instr) < 4096
       then handle_F_instr instr s =
           Inr (s\<lparr>V := (\<lambda>k. if unat k \<le> unat (X instr)
                             then ram s (unat (I s) + unat k) else V s k),
                  I := (if FX55_FX65_modify_I s then I s + ucast (X instr) + 1 else I s)\<rparr>)
       else handle_F_instr instr s = Inl Undefined_behaviour)) \<and>
   (if rows_in_memory s instr
    then handle_D_instr instr s =
     Inr (s\<lparr>screen := (\<lambda>p. screen s p \<noteq> sprite_at s instr p),
            V := (V s)(0xF := (if \<exists>p. sprite_at s instr p \<and> screen s p then 1 else 0))\<rparr>)
    else handle_D_instr instr s = Inl Undefined_behaviour)"
proof (rule conjI [OF _ conjI [OF _ conjI]])
  show "NN instr = 0x33 \<longrightarrow>
      (if unat (I s) + 2 < 4096
       then handle_F_instr instr s =
           Inr (s\<lparr>ram := (ram s)
                  (unat (I s) + 2 := V s (X instr) mod 10,
                   unat (I s) + 1 := (V s (X instr) div 10) mod 10,
                   unat (I s) := (V s (X instr) div 100) mod 10)\<rparr>)
       else handle_F_instr instr s = Inl Undefined_behaviour)"
    using FX33_effect [of instr s] by blast
  show "NN instr = 0x55 \<longrightarrow>
      (if unat (I s) + unat (X instr) < 4096
       then handle_F_instr instr s =
           Inr (s\<lparr>ram := (\<lambda>a. if unat (I s) \<le> a \<and> a \<le> unat (I s) + unat (X instr)
                               then V s (of_nat (a - unat (I s))) else ram s a),
                  I := (if FX55_FX65_modify_I s then I s + ucast (X instr) + 1 else I s)\<rparr>)
       else handle_F_instr instr s = Inl Undefined_behaviour)"
    using FX55_effect [of instr s] by blast
  show "NN instr = 0x65 \<longrightarrow>
      (if unat (I s) + unat (X instr) < 4096
       then handle_F_instr instr s =
           Inr (s\<lparr>V := (\<lambda>k. if unat k \<le> unat (X instr)
                             then ram s (unat (I s) + unat k) else V s k),
                  I := (if FX55_FX65_modify_I s then I s + ucast (X instr) + 1 else I s)\<rparr>)
       else handle_F_instr instr s = Inl Undefined_behaviour)"
    using FX65_effect [of instr s] by blast
  show "if rows_in_memory s instr
    then handle_D_instr instr s =
     Inr (s\<lparr>screen := (\<lambda>p. screen s p \<noteq> sprite_at s instr p),
            V := (V s)(0xF := (if \<exists>p. sprite_at s instr p \<and> screen s p then 1 else 0))\<rparr>)
    else handle_D_instr instr s = Inl Undefined_behaviour"
    by (rule DXYN_effect)
qed

text \<open>
  The theorem on both sides of each bound. \<^verbatim>\<open>F033\<close> with \<open>V0 = 254\<close>: at \<open>I = 0x300\<close> it
  stores 2, 5, 4 at \<open>0x300\<close> to \<open>0x302\<close>, at \<open>I = 0xFFE\<close> it is undefined. \<^verbatim>\<open>F155\<close> with
  \<open>V0 = 7\<close>, \<open>V1 = 9\<close>: at \<open>I = 0xFFE\<close> it stores them in the last two bytes of the memory,
  at \<open>I = 0xFFF\<close> it is undefined. \<^verbatim>\<open>F165\<close>: at \<open>I = 0\<close> it loads the first two font
  bytes into \<open>V0\<close> and \<open>V1\<close>, at \<open>I = 0xFFFF\<close> it is undefined. \<^verbatim>\<open>D005\<close> at \<open>I = 0\<close>
  draws the glyph of 0 at the origin of an empty display; \<^verbatim>\<open>D002\<close> at \<open>I = 0xFFF\<close> is
  undefined.
\<close>

theorem memory_access_completes_iff_in_range_witness:
  "NN (instruction_t_ctor 0xF033) = 0x33 \<and>
   handle_F_instr (instruction_t_ctor 0xF033) (Chip8_new 0x300 (\<lambda>_. 254)) =
     Inr ((Chip8_new 0x300 (\<lambda>_. 254))
            \<lparr>ram := (ram (Chip8_new 0x300 (\<lambda>_. 254)))(770 := 4, 769 := 5, 768 := 2)\<rparr>) \<and>
   handle_F_instr (instruction_t_ctor 0xF033) (Chip8_new 0xFFE (\<lambda>_. 0)) = Inl Undefined_behaviour \<and>
   NN (instruction_t_ctor 0xF155) = 0x55 \<and>
   (\<exists>s'. handle_F_instr (instruction_t_ctor 0xF155) (Chip8_new 0xFFE ((\<lambda>_. 0)(0 := 7, 1 := 9))) = Inr s' \<and>
         ram s' 0xFFE = 7 \<and> ram s' 0xFFF = 9 \<and> ram s' 0xFFD = 0 \<and> I s' = 0xFFE) \<and>
   handle_F_instr (instruction_t_ctor 0xF155) (Chip8_new 0xFFF (\<lambda>_. 0)) = Inl Undefined_behaviour \<and>
   NN (instruction_t_ctor 0xF165) = 0x65 \<and>
   (\<exists>s'. handle_F_instr (instruction_t_ctor 0xF165) (Chip8_new 0 (\<lambda>_. 0)) = Inr s' \<and>
         V s' 0 = 0xF0 \<and> V s' 1 = 0x90 \<and> V s' 2 = 0 \<and> I s' = 0) \<and>
   handle_F_instr (instruction_t_ctor 0xF165) (Chip8_new 0xFFFF (\<lambda>_. 0)) = Inl Undefined_behaviour \<and>
   rows_in_memory (Chip8_new 0 (\<lambda>_. 0)) (instruction_t_ctor 0xD005) \<and>
   (\<exists>s'. handle_D_instr (instruction_t_ctor 0xD005) (Chip8_new 0 (\<lambda>_. 0)) = Inr s' \<and>
         screen s' 0 \<and> \<not> screen s' 4 \<and> V s' 0xF = 0) \<and>
   \<not> rows_in_memory (Chip8_new 0xFFF (\<lambda>_. 0)) (instruction_t_ctor 0xD002) \<and>
   handle_D_instr (instruction_t_ctor 0xD002) (Chip8_new 0xFFF (\<lambda>_. 0)) = Inl Undefined_behaviour"
proof -
  have a: "NN (instruction_t_ctor 0xF033) = 0x33 \<and>
   handle_F_instr (instruction_t_ctor 0xF033) (Chip8_new 0x300 (\<lambda>_. 254)) =
     Inr ((Chip8_new 0x300 (\<lambda>_. 254))
            \<lparr>ram := (ram (Chip8_new 0x300 (\<lambda>_. 254)))(770 := 4, 769 := 5, 768 := 2)\<rparr>) \<and>
   handle_F_instr (instruction_t_ctor 0xF033) (Chip8_new 0xFFE (\<lambda>_. 0)) = Inl Undefined_behaviour"
    using memory_access_completes_iff_in_range [of "instruction_t_ctor 0xF033" "Chip8_new 0x300 (\<lambda>_. 254)"]
      memory_access_completes_iff_in_range [of "instruction_t_ctor 0xF033" "Chip8_new 0xFFE (\<lambda>_. 0)"]
    by (simp add: instruction_t_ctor_def Chip8_new_def)
  have b: "NN (instruction_t_ctor 0xF155) = 0x55 \<and>
   (\<exists>s'. handle_F_instr (instruction_t_ctor 0xF155) (Chip8_new 0xFFE ((\<lambda>_. 0)(0 := 7, 1 := 9))) = Inr s' \<and>
         ram s' 0xFFE = 7 \<and> ram s' 0xFFF = 9 \<and> ram s' 0xFFD = 0 \<and> I s' = 0xFFE) \<and>
   handle_F_instr (instruction_t_ctor 0xF155) (Chip8_new 0xFFF (\<lambda>_. 0)) = Inl Undefined_behaviour"
    using memory_access_completes_iff_in_range [of "instruction_t_ctor 0xF155" "Chip8_new 0xFFE ((\<lambda>_. 0)(0 := 7, 1 := 9))"]
      memory_access_completes_iff_in_range [of "instruction_t_ctor 0xF155" "Chip8_new 0xFFF (\<lambda>_. 0)"]
    by (simp add: instruction_t_ctor_def Chip8_new_def)
  have c: "NN (instruction_t_ctor 0xF165) = 0x65 \<and>
   (\<exists>s'. handle_F_instr (instruction_t_ctor 0xF165) (Chip8_new 0 (\<lambda>_. 0)) = Inr s' \<and>
         V s' 0 = 0xF0 \<and> V s' 1 = 0x90 \<and> V s' 2 = 0 \<and> I s' = 0) \<and>
   handle_F_instr (instruction_t_ctor 0xF165) (Chip8_new 0xFFFF (\<lambda>_. 0)) = Inl Undefined_behaviour"
    using memory_access_completes_iff_in_range [of "instruction_t_ctor 0xF165" "Chip8_new 0 (\<lambda>_. 0)"]
      memory_access_completes_iff_in_range [of "instruction_t_ctor 0xF165" "Chip8_new 0xFFFF (\<lambda>_. 0)"]
    by (simp add: instruction_t_ctor_def Chip8_new_def font_def)
  have d: "rows_in_memory (Chip8_new 0 (\<lambda>_. 0)) (instruction_t_ctor 0xD005) \<and>
   (\<exists>s'. handle_D_instr (instruction_t_ctor 0xD005) (Chip8_new 0 (\<lambda>_. 0)) = Inr s' \<and>
         screen s' 0 \<and> \<not> screen s' 4 \<and> V s' 0xF = 0) \<and>
   \<not> rows_in_memory (Chip8_new 0xFFF (\<lambda>_. 0)) (instruction_t_ctor 0xD002) \<and>
   handle_D_instr (instruction_t_ctor 0xD002) (Chip8_new 0xFFF (\<lambda>_. 0)) = Inl Undefined_behaviour"
    using memory_access_completes_iff_in_range [of "instruction_t_ctor 0xD005" "Chip8_new 0 (\<lambda>_. 0)"]
      memory_access_completes_iff_in_range [of "instruction_t_ctor 0xD002" "Chip8_new 0xFFF (\<lambda>_. 0)"]
    by (simp add: instruction_t_ctor_def Chip8_new_def rows_in_memory_def sprite_at_def
        sprite_from_def font_def)
  show ?thesis using a b c d by blast
qed

end
